theory Spec2Isabelle
  imports Complex_Main "HOL-Library.Sublist" "HOL-Library.Product_Lexorder"
begin

section \<open>Progressive admission search: a shallow embedding\<close>

text \<open>
  The development follows \<^verbatim>\<open>ClickHouseMedicalSearchService.py\<close> (the 17-step
  progressive search), \<^verbatim>\<open>searchSchema.py\<close> (request validation) and
  \<^verbatim>\<open>MedicalSearchController.py\<close> (the guard in front of the search).
  Python strings are \<open>string\<close>, Python integers are \<open>int\<close>, a value that may be
  absent from the input dictionary is an \<open>option\<close>, and an exception is the value
  \<open>None\<close> of the function that raises it.
\<close>

subsection \<open>Input data\<close>

text \<open>
  The dictionary \<^verbatim>\<open>input_data\<close>. The code reads the scalar criteria with
  \<^verbatim>\<open>input_data.get(key, '')\<close>, so an absent key is the empty string; the code lists
  are read with \<^verbatim>\<open>input_data.get(key, [])\<close>, so an absent key is the empty list. The
  two mandatory dates are read with \<^verbatim>\<open>input_data[key]\<close>, which raises on an absent
  key: they are options. The first four keys are passed in by the controller and never
  read by the search.
\<close>

record criteria =
  class_id :: string
  class_name :: string
  hospital_name :: string
  surgery_nature :: string
  icd10 :: "string list"
  icd9 :: "string list"
  hospital_code :: string
  payer_name :: string
  payer_type :: string
  primary_doctor :: string
  doctor_specialty :: string
  admission_type :: string
  gender :: string
  anesthesia_doctor :: string
  anesthesia_type :: string
  archetype :: string
  hospital_region :: string
  admission_date :: "string option"
  birthdate :: "string option"
  discharge_date :: "string option"

text \<open>
  \<^verbatim>\<open>processed_data\<close>: the input with the derived values. \<open>calculated_los\<close> is an
  integer or the empty string \<^verbatim>\<open>''\<close>; the empty string is \<open>None\<close>. The two
  store-formatted date strings only feed the age and date difference columns, which are
  kept symbolic below, and are left out.
\<close>

record processed = criteria +
  calculated_age :: int
  calculated_los :: "int option"

subsection \<open>Dates\<close>

text \<open>
  A parsed \<^verbatim>\<open>datetime\<close>; the code reads its year, month and day only
  (\<^verbatim>\<open>.date()\<close> drops the time of day).
\<close>

record pydatetime =
  dt_year :: int
  dt_month :: int
  dt_day :: int

text \<open>
  The two parsing functions of Python's \<^verbatim>\<open>datetime\<close> module are not part of the
  repository: they are parameters. \<open>None\<close> is a raised \<^verbatim>\<open>ValueError\<close>.
\<close>

record datetime_lib =
  fromisoformat :: "string \<Rightarrow> pydatetime option"
  strptime :: "string \<Rightarrow> string \<Rightarrow> pydatetime option"

text \<open>\<^verbatim>\<open>date_str.replace('Z', '+00:00')\<close>\<close>

definition replace_Z :: "string \<Rightarrow> string" where
  "replace_Z s = concat (map (\<lambda>c. if c = CHR ''Z'' then ''+00:00'' else [c]) s)"

definition parse_datetime :: "datetime_lib \<Rightarrow> string \<Rightarrow> pydatetime option" where
  "parse_datetime lib date_str =
     (if CHR ''T'' \<in> set date_str \<or> CHR ''Z'' \<in> set date_str
      then fromisoformat lib (replace_Z date_str)
      else strptime lib date_str ''%Y-%m-%d %H:%M:%S'')"

text \<open>
  The proleptic Gregorian ordinal of a date, as \<^verbatim>\<open>date.toordinal\<close> computes it;
  the difference of two dates in days is the difference of their ordinals.
\<close>

definition is_leap :: "int \<Rightarrow> bool" where
  "is_leap y \<longleftrightarrow> y mod 4 = 0 \<and> (y mod 100 \<noteq> 0 \<or> y mod 400 = 0)"

definition days_before_year :: "int \<Rightarrow> int" where
  "days_before_year y = (y - 1) * 365 + (y - 1) div 4 - (y - 1) div 100 + (y - 1) div 400"

definition days_before_month :: "int \<Rightarrow> int \<Rightarrow> int" where
  "days_before_month y m =
     (if m = 1 then 0 else if m = 2 then 31 else if m = 3 then 59 else if m = 4 then 90
      else if m = 5 then 120 else if m = 6 then 151 else if m = 7 then 181
      else if m = 8 then 212 else if m = 9 then 243 else if m = 10 then 273
      else if m = 11 then 304 else 334)
     + (if m > 2 \<and> is_leap y then 1 else 0)"

definition toordinal :: "pydatetime \<Rightarrow> int" where
  "toordinal d = days_before_year (dt_year d) + days_before_month (dt_year d) (dt_month d) + dt_day d"

definition days_between :: "pydatetime \<Rightarrow> pydatetime \<Rightarrow> int" where
  "days_between later earlier = toordinal later - toordinal earlier"

subsection \<open>The input normalizer\<close>

text \<open>
  \<^verbatim>\<open>age_at_admission = admission_date.year - birth_date.year\<close>, one less when
  \<^verbatim>\<open>(admission_date.month, admission_date.day) < (birth_date.month, birth_date.day)\<close>
  (Python compares tuples lexicographically, as the order on pairs does here).
\<close>

definition age_at_admission :: "pydatetime \<Rightarrow> pydatetime \<Rightarrow> int" where
  "age_at_admission admission birth =
     (if (dt_month admission, dt_day admission) < (dt_month birth, dt_day birth)
      then dt_year admission - dt_year birth - 1
      else dt_year admission - dt_year birth)"

text \<open>The \<^verbatim>\<open>except\<close> branch: age 0 and an empty length of stay.\<close>

definition age_los_defaults :: "criteria \<Rightarrow> processed" where
  "age_los_defaults input_data =
     criteria.extend input_data \<lparr> calculated_age = 0, calculated_los = None \<rparr>"

text \<open>
  \<^verbatim>\<open>_calculate_age_and_los\<close>. Everything from the first parse to the last assignment
  is inside one \<^verbatim>\<open>try\<close>: an absent key or a date that does not parse, at any of
  the three dates, ends in the defaults.
\<close>

definition calculate_age_and_los :: "datetime_lib \<Rightarrow> criteria \<Rightarrow> processed" where
  "calculate_age_and_los lib input_data =
     (case admission_date input_data of
        None \<Rightarrow> age_los_defaults input_data
      | Some a \<Rightarrow>
     (case parse_datetime lib a of
        None \<Rightarrow> age_los_defaults input_data
      | Some admission \<Rightarrow>
     (case birthdate input_data of
        None \<Rightarrow> age_los_defaults input_data
      | Some b \<Rightarrow>
     (case strptime lib b ''%Y-%m-%d'' of
        None \<Rightarrow> age_los_defaults input_data
      | Some birth \<Rightarrow>
     (case discharge_date input_data of
        None \<Rightarrow> criteria.extend input_data
          \<lparr> calculated_age = age_at_admission admission birth, calculated_los = None \<rparr>
      | Some d \<Rightarrow>
          if d = [] then criteria.extend input_data
            \<lparr> calculated_age = age_at_admission admission birth, calculated_los = None \<rparr>
          else
     (case parse_datetime lib d of
        None \<Rightarrow> age_los_defaults input_data
      | Some discharge \<Rightarrow> criteria.extend input_data
          \<lparr> calculated_age = age_at_admission admission birth,
            calculated_los = Some (days_between discharge admission) \<rparr>))))))"

subsection \<open>Stored rows and the conditions of a query\<close>

text \<open>
  One row of the admission table, with the identifier (the first selected column) and the
  columns that the seventeen queries filter on.
\<close>

record admission =
  AdmissionId :: int
  AdmissionTypeName :: string
  OrganizationCode :: string
  Sex :: string
  PrimaryDoctor :: string
  Specialty :: string
  Region :: string
  Archetype :: string
  DiseaseClassification :: string
  ProcedureClassification :: string
  PayerName :: string
  PayerType :: string
  LengthOfStay :: string
  AnesthesiaDoctor :: string
  AnesthesiaType :: string

datatype column =
    Col_AdmissionTypeName | Col_OrganizationCode | Col_Sex | Col_PrimaryDoctor
  | Col_Specialty | Col_Region | Col_Archetype | Col_DiseaseClassification
  | Col_ProcedureClassification | Col_PayerName | Col_PayerType | Col_LengthOfStay
  | Col_AnesthesiaDoctor | Col_AnesthesiaType

fun column_value :: "column \<Rightarrow> admission \<Rightarrow> string" where
  "column_value Col_AdmissionTypeName r = AdmissionTypeName r"
| "column_value Col_OrganizationCode r = OrganizationCode r"
| "column_value Col_Sex r = Sex r"
| "column_value Col_PrimaryDoctor r = PrimaryDoctor r"
| "column_value Col_Specialty r = Specialty r"
| "column_value Col_Region r = Region r"
| "column_value Col_Archetype r = Archetype r"
| "column_value Col_DiseaseClassification r = DiseaseClassification r"
| "column_value Col_ProcedureClassification r = ProcedureClassification r"
| "column_value Col_PayerName r = PayerName r"
| "column_value Col_PayerType r = PayerType r"
| "column_value Col_LengthOfStay r = LengthOfStay r"
| "column_value Col_AnesthesiaDoctor r = AnesthesiaDoctor r"
| "column_value Col_AnesthesiaType r = AnesthesiaType r"

text \<open>
  The conditions that the code writes into a \<^verbatim>\<open>WHERE\<close> clause:
  \<^verbatim>\<open>1=1\<close>, \<^verbatim>\<open>column = 'value'\<close>,
  \<^verbatim>\<open>(column LIKE '%c1%' OR column LIKE '%c2%' ...)\<close> and
  \<^verbatim>\<open>AdmissionId NOT IN (ids)\<close>.
\<close>

datatype cond =
    Always
  | Equals column string
  | LikeAny column "string list"
  | NotIn "int set"

text \<open>
  The values are pasted into the query between single quotes as they are, so what a
  condition means depends on the characters of the value. \<open>sql_literal\<close> reads the text
  between the quotes as the store reads a string literal: a backslash starts an escape
  sequence, a doubled quote is one quote, and a quote that is not doubled ends the
  literal. In the last case, and when the text ends in a lone backslash (which escapes the
  closing quote), the text is not one literal and the result is \<open>None\<close>: the query is
  then not the conjunction written here, and in general the store refuses it.
\<close>

definition hex_value :: "char \<Rightarrow> nat option" where
  "hex_value c =
     (let code = (of_char c :: nat) in
      if of_char CHR ''0'' \<le> code \<and> code \<le> of_char CHR ''9'' then Some (code - of_char CHR ''0'')
      else if of_char CHR ''a'' \<le> code \<and> code \<le> of_char CHR ''f''
        then Some (code - of_char CHR ''a'' + 10)
      else if of_char CHR ''A'' \<le> code \<and> code \<le> of_char CHR ''F''
        then Some (code - of_char CHR ''A'' + 10)
      else None)"

text \<open>The escape sequences of one character; any other character keeps its backslash.\<close>

definition escape :: "char \<Rightarrow> string" where
  "escape d =
     (if d = CHR 0x5C then [CHR 0x5C] else if d = CHR 0x27 then [CHR 0x27]
      else if d = CHR ''n'' then [CHR 0x0A] else if d = CHR ''t'' then [CHR 0x09]
      else if d = CHR ''r'' then [CHR 0x0D] else if d = CHR ''b'' then [CHR 0x08]
      else if d = CHR ''f'' then [CHR 0x0C] else if d = CHR ''0'' then [CHR 0x00]
      else if d = CHR ''a'' then [CHR 0x07] else if d = CHR ''v'' then [CHR 0x0B]
      else [CHR 0x5C, d])"

fun sql_literal :: "string \<Rightarrow> string option" where
  "sql_literal [] = Some []"
| "sql_literal [c] = (if c = CHR 0x5C \<or> c = CHR 0x27 then None else Some [c])"
| "sql_literal (c # d # ds) =
     (if c = CHR 0x5C then
        (if d = CHR ''x'' then
           (case ds of
              h # l # es \<Rightarrow>
                (case (hex_value h, hex_value l) of
                   (Some a, Some b) \<Rightarrow>
                     map_option (\<lambda>rest. char_of (16 * a + b) # rest) (sql_literal es)
                 | _ \<Rightarrow> map_option (\<lambda>rest. c # d # rest) (sql_literal ds))
            | _ \<Rightarrow> map_option (\<lambda>rest. c # d # rest) (sql_literal ds))
         else map_option (\<lambda>rest. escape d @ rest) (sql_literal ds))
      else if c = CHR 0x27 then
        (if d = CHR 0x27 then map_option (\<lambda>rest. d # rest) (sql_literal ds) else None)
      else map_option (\<lambda>rest. c # rest) (sql_literal (d # ds)))"

text \<open>
  \<^verbatim>\<open>subject LIKE pattern\<close>: \<^verbatim>\<open>%\<close> stands for any run of characters, \<^verbatim>\<open>_\<close> for
  any one character, and a backslash takes the next character of the pattern literally.
\<close>

fun like :: "string \<Rightarrow> string \<Rightarrow> bool" where
  "like [] s = (s = [])"
| "like (p # ps) s =
     (if p = CHR ''%'' then
        (like ps s \<or> (case s of [] \<Rightarrow> False | _ # t \<Rightarrow> like (p # ps) t))
      else if p = CHR ''_'' then
        (case s of [] \<Rightarrow> False | _ # t \<Rightarrow> like ps t)
      else if p = CHR 0x5C then
        (case ps of
           [] \<Rightarrow> s = [p]
         | q # qs \<Rightarrow> (case s of [] \<Rightarrow> False | c # t \<Rightarrow> c = q \<and> like qs t))
      else
        (case s of [] \<Rightarrow> False | c # t \<Rightarrow> c = p \<and> like ps t))"

text \<open>\<^verbatim>\<open>column LIKE '%{code}%'\<close> on the value of the column.\<close>

definition like_code :: "string \<Rightarrow> string \<Rightarrow> bool" where
  "like_code code field =
     (case sql_literal (''%'' @ code @ ''%'') of
        None \<Rightarrow> False
      | Some pattern \<Rightarrow> like pattern field)"

text \<open>\<^verbatim>\<open>column = '{value}'\<close> on the value of the column.\<close>

definition equals_value :: "string \<Rightarrow> string \<Rightarrow> bool" where
  "equals_value v field = (sql_literal v = Some field)"

text \<open>
  What a condition means on a stored row. A condition whose text is not made of whole
  literals holds of no row; so does a disjunction of \<^verbatim>\<open>LIKE\<close>s when the text of one
  of its codes is not a literal.
\<close>

fun holds :: "cond \<Rightarrow> admission \<Rightarrow> bool" where
  "holds Always r = True"
| "holds (Equals c v) r = equals_value v (column_value c r)"
| "holds (LikeAny c codes) r =
     (list_all (\<lambda>code. sql_literal (''%'' @ code @ ''%'') \<noteq> None) codes
      \<and> (\<exists>code \<in> set codes. like_code code (column_value c r)))"
| "holds (NotIn ids) r = (AdmissionId r \<notin> ids)"

text \<open>
  A value that the store reads as it is written has no quote and no backslash. A code
  that a \<^verbatim>\<open>LIKE\<close> pattern matches as it is written has, moreover, no \<^verbatim>\<open>%\<close> and
  no \<^verbatim>\<open>_\<close>.
\<close>

definition as_written :: "string \<Rightarrow> bool" where
  "as_written v = list_all (\<lambda>ch. ch \<noteq> CHR 0x27 \<and> ch \<noteq> CHR 0x5C) v"

definition plain :: "string \<Rightarrow> bool" where
  "plain v = list_all (\<lambda>ch. ch \<noteq> CHR ''%'' \<and> ch \<noteq> CHR ''_'' \<and> ch \<noteq> CHR 0x27 \<and> ch \<noteq> CHR 0x5C) v"

text \<open>
  The score expressions: a literal number, or the expression that
  \<^verbatim>\<open>build_enhanced_score\<close> writes for a non-empty code list: one
  \<^verbatim>\<open>CASE WHEN column LIKE '%code%' THEN 1 ELSE 0 END\<close> per code, summed, plus
  \<^verbatim>\<open>CASE WHEN length(column) - length(replace(column, ';', '')) + 1 > n THEN -0.1 ELSE 0 END\<close>.
\<close>

datatype score =
    Fixed int
  | Enhanced column "string list" nat

definition base_score :: "column \<Rightarrow> string list \<Rightarrow> admission \<Rightarrow> int" where
  "base_score c codes r =
     (\<Sum>code \<leftarrow> codes. if like_code code (column_value c r) then 1 else 0)"

definition code_count_penalty :: "column \<Rightarrow> nat \<Rightarrow> admission \<Rightarrow> rat" where
  "code_count_penalty c input_code_count r =
     (if int (length (column_value c r))
           - int (length (filter (\<lambda>ch. ch \<noteq> CHR '';'') (column_value c r))) + 1
         > int input_code_count
      then - (1 / 10) else 0)"

fun score_value :: "score \<Rightarrow> admission \<Rightarrow> rat" where
  "score_value (Fixed n) r = of_int n"
| "score_value (Enhanced c codes n) r = of_int (base_score c codes r) + code_count_penalty c n r"

subsection \<open>Code filters and scores\<close>

datatype step_type = Exact | Partial | Mixed | Icd9_only_exact | Icd9_only_partial

definition build_enhanced_score :: "string list \<Rightarrow> column \<Rightarrow> score" where
  "build_enhanced_score codes field_name =
     (if codes = [] then Fixed 0 else Enhanced field_name codes (length codes))"

text \<open>\<^verbatim>\<open>sep.join(parts)\<close>\<close>

fun join :: "string \<Rightarrow> string list \<Rightarrow> string" where
  "join sep [] = []"
| "join sep [x] = x"
| "join sep (x # y # ys) = x @ sep @ join sep (y # ys)"

definition build_exact_codes_string :: "string list \<Rightarrow> string" where
  "build_exact_codes_string codes = (if codes = [] then [] else join ''; '' codes)"

definition exact_filter :: "column \<Rightarrow> string list \<Rightarrow> cond" where
  "exact_filter c codes = (if codes \<noteq> [] then Equals c (build_exact_codes_string codes) else Always)"

definition partial_filter :: "column \<Rightarrow> string list \<Rightarrow> cond" where
  "partial_filter c codes = (if codes \<noteq> [] then LikeAny c codes else Always)"

text \<open>
  \<^verbatim>\<open>_calculate_icd_scores\<close>: the diagnosis filter, the procedure filter, the
  diagnosis score and the procedure score, for each of the five step types.
\<close>

fun calculate_icd_scores :: "processed \<Rightarrow> step_type \<Rightarrow> cond \<times> cond \<times> score \<times> score" where
  "calculate_icd_scores input_data Exact =
     (exact_filter Col_DiseaseClassification (icd10 input_data),
      exact_filter Col_ProcedureClassification (icd9 input_data),
      (if icd10 input_data \<noteq> [] then Fixed 1 else Fixed 0),
      (if icd9 input_data \<noteq> [] then Fixed 1 else Fixed 0))"
| "calculate_icd_scores input_data Partial =
     (partial_filter Col_DiseaseClassification (icd10 input_data),
      partial_filter Col_ProcedureClassification (icd9 input_data),
      build_enhanced_score (icd10 input_data) Col_DiseaseClassification,
      build_enhanced_score (icd9 input_data) Col_ProcedureClassification)"
| "calculate_icd_scores input_data Mixed =
     (partial_filter Col_DiseaseClassification (icd10 input_data),
      exact_filter Col_ProcedureClassification (icd9 input_data),
      build_enhanced_score (icd10 input_data) Col_DiseaseClassification,
      build_enhanced_score (icd9 input_data) Col_ProcedureClassification)"
| "calculate_icd_scores input_data Icd9_only_exact =
     (Always,
      exact_filter Col_ProcedureClassification (icd9 input_data),
      Fixed 0,
      (if icd9 input_data \<noteq> [] then Fixed 1 else Fixed 0))"
| "calculate_icd_scores input_data Icd9_only_partial =
     (Always,
      partial_filter Col_ProcedureClassification (icd9 input_data),
      Fixed 0,
      build_enhanced_score (icd9 input_data) Col_ProcedureClassification)"

definition icd10_filter :: "processed \<Rightarrow> step_type \<Rightarrow> cond" where
  "icd10_filter input_data t = fst (calculate_icd_scores input_data t)"

definition icd9_filter :: "processed \<Rightarrow> step_type \<Rightarrow> cond" where
  "icd9_filter input_data t = fst (snd (calculate_icd_scores input_data t))"

definition icd10_score :: "processed \<Rightarrow> step_type \<Rightarrow> score" where
  "icd10_score input_data t = fst (snd (snd (calculate_icd_scores input_data t)))"

definition icd9_score :: "processed \<Rightarrow> step_type \<Rightarrow> score" where
  "icd9_score input_data t = snd (snd (snd (calculate_icd_scores input_data t)))"

subsection \<open>Building conditions\<close>

text \<open>
  Python's \<^verbatim>\<open>str.strip()\<close> removes white space at both ends, so
  \<^verbatim>\<open>not value or value.strip() == ""\<close> says that the value has white space only.
\<close>

definition py_isspace :: "char \<Rightarrow> bool" where
  "py_isspace c \<longleftrightarrow> c \<in> set [CHR '' '', CHR 0x09, CHR 0x0A, CHR 0x0B, CHR 0x0C, CHR 0x0D,
                                CHR 0x1C, CHR 0x1D, CHR 0x1E, CHR 0x1F, CHR 0x85, CHR 0xA0]"

definition strip :: "string \<Rightarrow> string" where
  "strip s = rev (dropWhile py_isspace (rev (dropWhile py_isspace s)))"

text \<open>\<^verbatim>\<open>_build_condition\<close>: no condition (\<open>None\<close>) for an empty value.\<close>

definition build_condition :: "column \<Rightarrow> string \<Rightarrow> cond option" where
  "build_condition field_name v =
     (if v = [] \<or> strip v = [] then None else Some (Equals field_name v))"

text \<open>\<^verbatim>\<open>_build_conditions\<close>: the empty conditions are dropped, the rest are joined
  with \<^verbatim>\<open>AND\<close>.\<close>

definition build_conditions :: "cond option list \<Rightarrow> cond list" where
  "build_conditions conditions = List.map_filter id conditions"

text \<open>\<^verbatim>\<open>_get_exclusion_clause\<close>: nothing when no identifier was found so far.\<close>

definition get_exclusion_clause :: "int set \<Rightarrow> cond list" where
  "get_exclusion_clause found_admission_ids =
     (if found_admission_ids = {} then [] else [NotIn found_admission_ids])"

text \<open>\<^verbatim>\<open>str(n)\<close> for an integer: its decimal numeral, with a sign when negative.\<close>

function decimal :: "nat \<Rightarrow> string" where
  "decimal n = (if n < 10 then [''0123456789'' ! n]
                else decimal (n div 10) @ [''0123456789'' ! (n mod 10)])"
  by pat_completeness auto
termination
  by (relation "measure id") auto

declare decimal.simps [simp del]

definition str_int :: "int \<Rightarrow> string" where
  "str_int i = (if i < 0 then CHR ''-'' # decimal (nat (- i)) else decimal (nat i))"

text \<open>\<^verbatim>\<open>input_data.get('calculated_los', '')\<close> written into a string.\<close>

definition los_text :: "processed \<Rightarrow> string" where
  "los_text input_data = (case calculated_los input_data of None \<Rightarrow> [] | Some n \<Rightarrow> str_int n)"

text \<open>
  \<^verbatim>\<open>_get_los_diff_calculation\<close>: the literal \<^verbatim>\<open>0 as los_diff\<close> when the input
  has no length of stay, \<^verbatim>\<open>abs(toInt32OrZero(LengthOfStay) - n) as los_diff\<close> otherwise.
\<close>

datatype los_diff = Los_zero | Los_abs_diff int

definition get_los_diff_calculation :: "processed \<Rightarrow> los_diff" where
  "get_los_diff_calculation input_data =
     (case calculated_los input_data of None \<Rightarrow> Los_zero | Some n \<Rightarrow> Los_abs_diff n)"

text \<open>The value of the column on a row; the store's \<^verbatim>\<open>toInt32OrZero\<close> is a parameter.\<close>

fun los_diff_value :: "(string \<Rightarrow> int) \<Rightarrow> los_diff \<Rightarrow> admission \<Rightarrow> int" where
  "los_diff_value toInt32OrZero Los_zero r = 0"
| "los_diff_value toInt32OrZero (Los_abs_diff n) r = \<bar>toInt32OrZero (LengthOfStay r) - n\<bar>"

subsection \<open>Queries\<close>

datatype sort_key =
    Age_diff | Date_diff | Los_diff | Gender_priority | Admission_type_priority
  | Doctor_priority | Payer_name_priority | Payer_type_priority | Hospital_priority
  | Region_priority | Archetype_priority | Icd9_match_count | Icd10_match_count

datatype direction = ASC | DESC

text \<open>
  One query: the literal of its last column \<^verbatim>\<open>result_step\<close>, the score columns, the
  \<^verbatim>\<open>los_diff\<close> column, the priority columns
  \<^verbatim>\<open>CASE WHEN column = 'value' THEN 0 ELSE 1 END as name\<close>, the conjunction of the
  \<^verbatim>\<open>WHERE\<close> clause, the \<^verbatim>\<open>ORDER BY\<close> list and the \<^verbatim>\<open>LIMIT\<close>. The
  \<^verbatim>\<open>age_diff\<close> and \<^verbatim>\<open>date_diff\<close> columns are in every query and appear as sort
  keys only.
\<close>

record query =
  q_result_step :: string
  q_icd10_match_count :: "score option"
  q_icd9_match_count :: "score option"
  q_los_diff :: "los_diff option"
  q_priorities :: "(sort_key \<times> column \<times> string) list"
  q_where :: "cond list"
  q_order_by :: "(sort_key \<times> direction) list"
  q_limit :: nat

definition priority_admission_type :: "processed \<Rightarrow> sort_key \<times> column \<times> string" where
  "priority_admission_type d = (Admission_type_priority, Col_AdmissionTypeName, admission_type d)"

definition priority_gender :: "processed \<Rightarrow> sort_key \<times> column \<times> string" where
  "priority_gender d = (Gender_priority, Col_Sex, gender d)"

definition priority_doctor :: "processed \<Rightarrow> sort_key \<times> column \<times> string" where
  "priority_doctor d = (Doctor_priority, Col_PrimaryDoctor, primary_doctor d)"

subsection \<open>The seventeen queries\<close>

text \<open>
  \<^verbatim>\<open>_step_1\<close> builds its \<^verbatim>\<open>WHERE\<close> clause with \<^verbatim>\<open>_build_condition\<close>, which
  leaves out a criterion whose value is empty, and has no exclusion clause. The two code
  filters are never the empty string, so they always stay.
\<close>

definition step_1_query :: "processed \<Rightarrow> int set \<Rightarrow> query" where
  "step_1_query input_data found_admission_ids =
     \<lparr> q_result_step = ''STEP_1'',
       q_icd10_match_count = Some (Fixed (int (length (icd10 input_data)))),
       q_icd9_match_count = Some (Fixed (int (length (icd9 input_data)))),
       q_los_diff = None,
       q_priorities = [],
       q_where = build_conditions
         [Some (icd10_filter input_data Exact),
          Some (icd9_filter input_data Exact),
          build_condition Col_OrganizationCode (hospital_code input_data),
          build_condition Col_PayerName (payer_name input_data),
          build_condition Col_PrimaryDoctor (primary_doctor input_data),
          build_condition Col_LengthOfStay (los_text input_data),
          build_condition Col_AdmissionTypeName (admission_type input_data),
          build_condition Col_Sex (gender input_data),
          build_condition Col_AnesthesiaDoctor (anesthesia_doctor input_data),
          build_condition Col_AnesthesiaType (anesthesia_type input_data)],
       q_order_by = [(Age_diff, ASC), (Date_diff, ASC)],
       q_limit = 50 \<rparr>"

text \<open>
  From \<^verbatim>\<open>_step_2\<close> on, every criterion of the step is written into the query as
  \<^verbatim>\<open>column = '{input_data.get(key, '')}'\<close>, whatever the value, and the exclusion
  clause follows.
\<close>

text \<open>\<^verbatim>\<open>_step_2\<close>: Remove Anesthesia Doctor.\<close>

definition step_2_query :: "processed \<Rightarrow> int set \<Rightarrow> query" where
  "step_2_query input_data found_admission_ids =
     \<lparr> q_result_step = ''STEP_2'',
       q_icd10_match_count = None,
       q_icd9_match_count = None,
       q_los_diff = None,
       q_priorities = [],
       q_where =
         [icd10_filter input_data Exact,
          icd9_filter input_data Exact,
          Equals Col_OrganizationCode (hospital_code input_data),
          Equals Col_PayerName (payer_name input_data),
          Equals Col_PrimaryDoctor (primary_doctor input_data),
          Equals Col_LengthOfStay (los_text input_data),
          Equals Col_AdmissionTypeName (admission_type input_data),
          Equals Col_Sex (gender input_data),
          Equals Col_AnesthesiaType (anesthesia_type input_data)]
         @ get_exclusion_clause found_admission_ids,
       q_order_by =
         [(Age_diff, ASC), (Date_diff, ASC)],
       q_limit = 50 \<rparr>"

text \<open>\<^verbatim>\<open>_step_3\<close>: Remove Anesthesia Type.\<close>

definition step_3_query :: "processed \<Rightarrow> int set \<Rightarrow> query" where
  "step_3_query input_data found_admission_ids =
     \<lparr> q_result_step = ''STEP_3'',
       q_icd10_match_count = None,
       q_icd9_match_count = None,
       q_los_diff = None,
       q_priorities = [],
       q_where =
         [icd10_filter input_data Exact,
          icd9_filter input_data Exact,
          Equals Col_OrganizationCode (hospital_code input_data),
          Equals Col_PayerName (payer_name input_data),
          Equals Col_PrimaryDoctor (primary_doctor input_data),
          Equals Col_LengthOfStay (los_text input_data),
          Equals Col_AdmissionTypeName (admission_type input_data),
          Equals Col_Sex (gender input_data)]
         @ get_exclusion_clause found_admission_ids,
       q_order_by =
         [(Age_diff, ASC), (Date_diff, ASC)],
       q_limit = 50 \<rparr>"

text \<open>\<^verbatim>\<open>_step_4\<close>: Remove Gender.\<close>

definition step_4_query :: "processed \<Rightarrow> int set \<Rightarrow> query" where
  "step_4_query input_data found_admission_ids =
     \<lparr> q_result_step = ''STEP_4'',
       q_icd10_match_count = None,
       q_icd9_match_count = None,
       q_los_diff = None,
       q_priorities = [],
       q_where =
         [icd10_filter input_data Exact,
          icd9_filter input_data Exact,
          Equals Col_OrganizationCode (hospital_code input_data),
          Equals Col_PayerName (payer_name input_data),
          Equals Col_PrimaryDoctor (primary_doctor input_data),
          Equals Col_LengthOfStay (los_text input_data),
          Equals Col_AdmissionTypeName (admission_type input_data)]
         @ get_exclusion_clause found_admission_ids,
       q_order_by =
         [(Age_diff, ASC), (Date_diff, ASC)],
       q_limit = 50 \<rparr>"

text \<open>\<^verbatim>\<open>_step_5\<close>: Remove Admission Type, prioritize same gender.\<close>

definition step_5_query :: "processed \<Rightarrow> int set \<Rightarrow> query" where
  "step_5_query input_data found_admission_ids =
     \<lparr> q_result_step = ''STEP_5'',
       q_icd10_match_count = None,
       q_icd9_match_count = None,
       q_los_diff = Some (get_los_diff_calculation input_data),
       q_priorities =
         [priority_gender input_data],
       q_where =
         [icd10_filter input_data Exact,
          icd9_filter input_data Exact,
          Equals Col_OrganizationCode (hospital_code input_data),
          Equals Col_PayerName (payer_name input_data),
          Equals Col_PrimaryDoctor (primary_doctor input_data)]
         @ get_exclusion_clause found_admission_ids,
       q_order_by =
         [(Gender_priority, ASC), (Age_diff, ASC), (Los_diff, ASC),
          (Date_diff, ASC)],
       q_limit = 50 \<rparr>"

text \<open>\<^verbatim>\<open>_step_6\<close>: Remove Length of Stay, add length of stay difference.\<close>

definition step_6_query :: "processed \<Rightarrow> int set \<Rightarrow> query" where
  "step_6_query input_data found_admission_ids =
     \<lparr> q_result_step = ''STEP_6'',
       q_icd10_match_count = None,
       q_icd9_match_count = None,
       q_los_diff = Some (get_los_diff_calculation input_data),
       q_priorities =
         [priority_admission_type input_data,
          priority_gender input_data],
       q_where =
         [icd10_filter input_data Exact,
          icd9_filter input_data Exact,
          Equals Col_OrganizationCode (hospital_code input_data),
          Equals Col_PayerName (payer_name input_data),
          Equals Col_PrimaryDoctor (primary_doctor input_data)]
         @ get_exclusion_clause found_admission_ids,
       q_order_by =
         [(Admission_type_priority, ASC), (Gender_priority, ASC),
          (Age_diff, ASC), (Los_diff, ASC), (Date_diff, ASC)],
       q_limit = 50 \<rparr>"

text \<open>\<^verbatim>\<open>_step_7\<close>: Use Doctor Specialty instead of Doctor Name.\<close>

definition step_7_query :: "processed \<Rightarrow> int set \<Rightarrow> query" where
  "step_7_query input_data found_admission_ids =
     \<lparr> q_result_step = ''STEP_7'',
       q_icd10_match_count = None,
       q_icd9_match_count = None,
       q_los_diff = Some (get_los_diff_calculation input_data),
       q_priorities =
         [priority_admission_type input_data,
          priority_gender input_data],
       q_where =
         [icd10_filter input_data Exact,
          icd9_filter input_data Exact,
          Equals Col_OrganizationCode (hospital_code input_data),
          Equals Col_PayerName (payer_name input_data),
          Equals Col_Specialty (doctor_specialty input_data)]
         @ get_exclusion_clause found_admission_ids,
       q_order_by =
         [(Admission_type_priority, ASC), (Gender_priority, ASC),
          (Age_diff, ASC), (Los_diff, ASC), (Date_diff, ASC)],
       q_limit = 50 \<rparr>"

text \<open>\<^verbatim>\<open>_step_8\<close>: Remove Doctor Name/Specialty.\<close>

definition step_8_query :: "processed \<Rightarrow> int set \<Rightarrow> query" where
  "step_8_query input_data found_admission_ids =
     \<lparr> q_result_step = ''STEP_8'',
       q_icd10_match_count = None,
       q_icd9_match_count = None,
       q_los_diff = Some (get_los_diff_calculation input_data),
       q_priorities =
         [priority_admission_type input_data,
          priority_gender input_data],
       q_where =
         [icd10_filter input_data Exact,
          icd9_filter input_data Exact,
          Equals Col_OrganizationCode (hospital_code input_data),
          Equals Col_PayerName (payer_name input_data)]
         @ get_exclusion_clause found_admission_ids,
       q_order_by =
         [(Admission_type_priority, ASC), (Gender_priority, ASC),
          (Age_diff, ASC), (Los_diff, ASC), (Date_diff, ASC)],
       q_limit = 50 \<rparr>"

text \<open>\<^verbatim>\<open>_step_9\<close>: Use Payer Type instead of Payer Name.\<close>

definition step_9_query :: "processed \<Rightarrow> int set \<Rightarrow> query" where
  "step_9_query input_data found_admission_ids =
     \<lparr> q_result_step = ''STEP_9'',
       q_icd10_match_count = None,
       q_icd9_match_count = None,
       q_los_diff = Some (get_los_diff_calculation input_data),
       q_priorities =
         [priority_doctor input_data,
          priority_admission_type input_data,
          priority_gender input_data],
       q_where =
         [icd10_filter input_data Exact,
          icd9_filter input_data Exact,
          Equals Col_OrganizationCode (hospital_code input_data),
          Equals Col_PayerType (payer_type input_data)]
         @ get_exclusion_clause found_admission_ids,
       q_order_by =
         [(Doctor_priority, ASC), (Admission_type_priority, ASC),
          (Gender_priority, ASC), (Age_diff, ASC), (Los_diff, ASC),
          (Date_diff, ASC)],
       q_limit = 50 \<rparr>"

text \<open>\<^verbatim>\<open>_step_10\<close>: Remove Payer Type, keep Hospital Name.\<close>

definition step_10_query :: "processed \<Rightarrow> int set \<Rightarrow> query" where
  "step_10_query input_data found_admission_ids =
     \<lparr> q_result_step = ''STEP_10'',
       q_icd10_match_count = None,
       q_icd9_match_count = None,
       q_los_diff = Some (get_los_diff_calculation input_data),
       q_priorities =
         [priority_doctor input_data,
          priority_admission_type input_data,
          priority_gender input_data],
       q_where =
         [icd10_filter input_data Exact,
          icd9_filter input_data Exact,
          Equals Col_OrganizationCode (hospital_code input_data)]
         @ get_exclusion_clause found_admission_ids,
       q_order_by =
         [(Doctor_priority, ASC), (Admission_type_priority, ASC),
          (Gender_priority, ASC), (Age_diff, ASC), (Los_diff, ASC),
          (Date_diff, ASC)],
       q_limit = 50 \<rparr>"

text \<open>\<^verbatim>\<open>_step_11\<close>: Use Hospital Archetype instead of Hospital Name.\<close>

definition step_11_query :: "processed \<Rightarrow> int set \<Rightarrow> query" where
  "step_11_query input_data found_admission_ids =
     \<lparr> q_result_step = ''STEP_11'',
       q_icd10_match_count = None,
       q_icd9_match_count = None,
       q_los_diff = Some (get_los_diff_calculation input_data),
       q_priorities =
         [(Payer_name_priority, Col_PayerName, payer_name input_data),
          (Payer_type_priority, Col_PayerType, payer_type input_data),
          priority_doctor input_data,
          priority_admission_type input_data,
          priority_gender input_data],
       q_where =
         [icd10_filter input_data Exact,
          icd9_filter input_data Exact,
          Equals Col_Archetype (archetype input_data)]
         @ get_exclusion_clause found_admission_ids,
       q_order_by =
         [(Payer_name_priority, ASC), (Payer_type_priority, ASC),
          (Doctor_priority, ASC), (Admission_type_priority, ASC),
          (Gender_priority, ASC), (Age_diff, ASC), (Los_diff, ASC),
          (Date_diff, ASC)],
       q_limit = 50 \<rparr>"

text \<open>\<^verbatim>\<open>_step_12\<close>: Same as Step 11 but different sorting.\<close>

definition step_12_query :: "processed \<Rightarrow> int set \<Rightarrow> query" where
  "step_12_query input_data found_admission_ids =
     \<lparr> q_result_step = ''STEP_12'',
       q_icd10_match_count = None,
       q_icd9_match_count = None,
       q_los_diff = Some (get_los_diff_calculation input_data),
       q_priorities =
         [priority_doctor input_data,
          priority_admission_type input_data,
          priority_gender input_data],
       q_where =
         [icd10_filter input_data Exact,
          icd9_filter input_data Exact,
          Equals Col_Archetype (archetype input_data)]
         @ get_exclusion_clause found_admission_ids,
       q_order_by =
         [(Doctor_priority, ASC), (Admission_type_priority, ASC),
          (Gender_priority, ASC), (Age_diff, ASC), (Los_diff, ASC),
          (Date_diff, ASC)],
       q_limit = 50 \<rparr>"

text \<open>\<^verbatim>\<open>_step_13\<close>: Use Hospital Region instead of Archetype.\<close>

definition step_13_query :: "processed \<Rightarrow> int set \<Rightarrow> query" where
  "step_13_query input_data found_admission_ids =
     \<lparr> q_result_step = ''STEP_13'',
       q_icd10_match_count = None,
       q_icd9_match_count = None,
       q_los_diff = Some (get_los_diff_calculation input_data),
       q_priorities =
         [priority_doctor input_data,
          priority_admission_type input_data,
          priority_gender input_data],
       q_where =
         [icd10_filter input_data Exact,
          icd9_filter input_data Exact,
          Equals Col_Region (hospital_region input_data)]
         @ get_exclusion_clause found_admission_ids,
       q_order_by =
         [(Doctor_priority, ASC), (Admission_type_priority, ASC),
          (Gender_priority, ASC), (Age_diff, ASC), (Los_diff, ASC),
          (Date_diff, ASC)],
       q_limit = 50 \<rparr>"

text \<open>\<^verbatim>\<open>_step_14\<close>: Only exact ICD codes (no other constraints).\<close>

definition step_14_query :: "processed \<Rightarrow> int set \<Rightarrow> query" where
  "step_14_query input_data found_admission_ids =
     \<lparr> q_result_step = ''STEP_14'',
       q_icd10_match_count = None,
       q_icd9_match_count = None,
       q_los_diff = Some (get_los_diff_calculation input_data),
       q_priorities =
         [(Hospital_priority, Col_OrganizationCode, hospital_code input_data),
          (Region_priority, Col_Region, hospital_region input_data),
          (Archetype_priority, Col_Archetype, archetype input_data),
          priority_doctor input_data,
          priority_admission_type input_data,
          priority_gender input_data],
       q_where =
         [icd10_filter input_data Exact,
          icd9_filter input_data Exact]
         @ get_exclusion_clause found_admission_ids,
       q_order_by =
         [(Hospital_priority, ASC), (Region_priority, ASC),
          (Archetype_priority, ASC), (Doctor_priority, ASC),
          (Admission_type_priority, ASC), (Gender_priority, ASC),
          (Age_diff, ASC), (Los_diff, ASC), (Date_diff, ASC)],
       q_limit = 50 \<rparr>"

text \<open>\<^verbatim>\<open>_step_15\<close>: Exact ICD9 + Partial ICD10 (no other constraints).\<close>

definition step_15_query :: "processed \<Rightarrow> int set \<Rightarrow> query" where
  "step_15_query input_data found_admission_ids =
     \<lparr> q_result_step = ''STEP_15'',
       q_icd10_match_count = Some (icd10_score input_data Mixed),
       q_icd9_match_count = Some (icd9_score input_data Mixed),
       q_los_diff = Some (get_los_diff_calculation input_data),
       q_priorities = [],
       q_where =
         [icd10_filter input_data Mixed,
          icd9_filter input_data Mixed]
         @ get_exclusion_clause found_admission_ids,
       q_order_by =
         [(Icd9_match_count, DESC), (Icd10_match_count, DESC), (Age_diff, ASC),
          (Los_diff, ASC), (Date_diff, ASC)],
       q_limit = 50 \<rparr>"

text \<open>\<^verbatim>\<open>_step_16\<close>: Only exact ICD9 (ignore ICD10 completely).\<close>

definition step_16_query :: "processed \<Rightarrow> int set \<Rightarrow> query" where
  "step_16_query input_data found_admission_ids =
     \<lparr> q_result_step = ''STEP_16'',
       q_icd10_match_count = None,
       q_icd9_match_count = Some (icd9_score input_data Icd9_only_exact),
       q_los_diff = Some (get_los_diff_calculation input_data),
       q_priorities = [],
       q_where =
         [icd9_filter input_data Icd9_only_exact]
         @ get_exclusion_clause found_admission_ids,
       q_order_by =
         [(Icd9_match_count, DESC), (Age_diff, ASC), (Los_diff, ASC),
          (Date_diff, ASC)],
       q_limit = 50 \<rparr>"

text \<open>\<^verbatim>\<open>_step_17\<close>: Only partial ICD9 (ignore ICD10 completely).\<close>

definition step_17_query :: "processed \<Rightarrow> int set \<Rightarrow> query" where
  "step_17_query input_data found_admission_ids =
     \<lparr> q_result_step = ''STEP_17'',
       q_icd10_match_count = None,
       q_icd9_match_count = Some (icd9_score input_data Icd9_only_partial),
       q_los_diff = Some (get_los_diff_calculation input_data),
       q_priorities = [],
       q_where =
         [icd9_filter input_data Icd9_only_partial]
         @ get_exclusion_clause found_admission_ids,
       q_order_by =
         [(Icd9_match_count, DESC), (Age_diff, ASC), (Los_diff, ASC),
          (Date_diff, ASC)],
       q_limit = 50 \<rparr>"

subsection \<open>Executing a query\<close>

text \<open>
  A row of a result: the stored row (its first column is \<^verbatim>\<open>AdmissionId\<close>) and the
  last selected column \<^verbatim>\<open>result_step\<close>. The computed columns in between are not
  read by the search.
\<close>

record result =
  r_row :: admission
  r_result_step :: string

text \<open>
  The store, \<^verbatim>\<open>self.client.query(query)\<close>: the stored rows it selects, in the order it
  returns them, or \<open>None\<close> when it raises. Every row of a result carries the literal of
  the query in its last column.
\<close>

type_synonym client = "query \<Rightarrow> admission list option"

text \<open>\<^verbatim>\<open>_execute_query\<close>: a failure is logged and becomes the empty list.\<close>

definition execute_query :: "client \<Rightarrow> query \<Rightarrow> result list" where
  "execute_query client q =
     (case client q of
        None \<Rightarrow> []
      | Some rows \<Rightarrow> map (\<lambda>r. \<lparr> r_row = r, r_result_step = q_result_step q \<rparr>) rows)"

text \<open>
  A step function as one function of the identifiers found: it builds its query and
  returns the rows of the answer (what \<^verbatim>\<open>_execute_query\<close> returns), or raises
  (\<open>None\<close>). This is a step of a search that nothing interrupts between the building
  of the query and the answer; the seventeen step functions never raise.
\<close>

type_synonym step_fun = "processed \<Rightarrow> int set \<Rightarrow> result list option"

definition step_of :: "client \<Rightarrow> (processed \<Rightarrow> int set \<Rightarrow> query) \<Rightarrow> step_fun" where
  "step_of client build input_data found_admission_ids =
     Some (execute_query client (build input_data found_admission_ids))"

definition step_queries :: "(processed \<Rightarrow> int set \<Rightarrow> query) list" where
  "step_queries =
     [step_1_query, step_2_query, step_3_query, step_4_query, step_5_query,
      step_6_query, step_7_query, step_8_query, step_9_query, step_10_query,
      step_11_query, step_12_query, step_13_query, step_14_query, step_15_query,
      step_16_query, step_17_query]"

definition steps :: "client \<Rightarrow> step_fun list" where
  "steps client = map (step_of client) step_queries"

subsection \<open>The progressive search\<close>

text \<open>
  The service is one object for the whole process
  (\<^verbatim>\<open>clickhouse_medical_search_service = ClickHouseMedicalSearchService()\<close>), and
  \<^verbatim>\<open>self.results\<close> and \<^verbatim>\<open>self.found_admission_ids\<close> are fields of it: every
  request reads and writes the same two fields.
\<close>

record service =
  results :: "result list"
  found_admission_ids :: "int set"

text \<open>\<^verbatim>\<open>xs[:n]\<close>: the first \<open>n\<close> elements, or all but the last \<open>-n\<close> when \<open>n\<close> is negative.\<close>

definition slice_to :: "int \<Rightarrow> 'a list \<Rightarrow> 'a list" where
  "slice_to n xs = (if n \<ge> 0 then take (nat n) xs else take (length xs - nat (- n)) xs)"

text \<open>\<^verbatim>\<open>s.split(sep)\<close> for a separator of one character.\<close>

fun split_on :: "char \<Rightarrow> string \<Rightarrow> string list" where
  "split_on sep [] = [] # []"
| "split_on sep (c # cs) =
     (if c = sep then [] # split_on sep cs
      else (case split_on sep cs of
              [] \<Rightarrow> [c] # []
            | p # ps \<Rightarrow> (c # p) # ps))"

text \<open>
  \<^verbatim>\<open>int(s)\<close> for a string without underscores: white space around, an optional sign,
  and at least one decimal digit; \<open>None\<close> is a raised \<^verbatim>\<open>ValueError\<close>. The white
  space that \<^verbatim>\<open>int\<close> skips is that of \<^verbatim>\<open>str.strip\<close> without the four separators
  \<^verbatim>\<open>0x1C\<close> to \<^verbatim>\<open>0x1F\<close>.
\<close>

definition int_isspace :: "char \<Rightarrow> bool" where
  "int_isspace c \<longleftrightarrow> c \<in> set [CHR '' '', CHR 0x09, CHR 0x0A, CHR 0x0B, CHR 0x0C, CHR 0x0D,
                                 CHR 0x85, CHR 0xA0]"

definition int_strip :: "string \<Rightarrow> string" where
  "int_strip s = rev (dropWhile int_isspace (rev (dropWhile int_isspace s)))"

definition digit_value :: "char \<Rightarrow> nat option" where
  "digit_value c =
     (let code = (of_char c :: nat) in
      if of_char CHR ''0'' \<le> code \<and> code \<le> of_char CHR ''9''
      then Some (code - of_char CHR ''0'') else None)"

fun parse_digits :: "nat \<Rightarrow> string \<Rightarrow> nat option" where
  "parse_digits acc [] = Some acc"
| "parse_digits acc (c # cs) =
     (case digit_value c of None \<Rightarrow> None | Some d \<Rightarrow> parse_digits (10 * acc + d) cs)"

definition parse_unsigned :: "string \<Rightarrow> nat option" where
  "parse_unsigned s = (if s = [] then None else parse_digits 0 s)"

definition py_int :: "string \<Rightarrow> int option" where
  "py_int s =
     (case int_strip s of
        [] \<Rightarrow> None
      | c # cs \<Rightarrow>
          if c = CHR ''-'' then map_option (\<lambda>n. - int n) (parse_unsigned cs)
          else if c = CHR ''+'' then map_option int (parse_unsigned cs)
          else map_option int (parse_unsigned (c # cs)))"

text \<open>
  \<^verbatim>\<open>get_step_number\<close>, the key of the final sort: the number after
  \<^verbatim>\<open>STEP_\<close> in the last column, 999 when there is none.
\<close>

definition get_step_number :: "result \<Rightarrow> int" where
  "get_step_number r =
     (let step_str = r_result_step r in
      if prefix ''STEP_'' step_str then
        (case split_on CHR ''_'' step_str of
           _ # p # _ \<Rightarrow> (case py_int p of Some n \<Rightarrow> n | None \<Rightarrow> 999)
         | _ \<Rightarrow> 999)
      else 999)"

text \<open>
  The end of \<^verbatim>\<open>search_similar_admissions\<close>: \<^verbatim>\<open>self.results\<close>, as it is at that
  moment, is cut to \<^verbatim>\<open>max_results\<close> and sorted by step number with Python's stable
  \<^verbatim>\<open>list.sort\<close>.
\<close>

definition final_results :: "int \<Rightarrow> service \<Rightarrow> result list" where
  "final_results max_results self =
     sort_key get_step_number (slice_to max_results (results self))"

text \<open>
  \<^verbatim>\<open>search_similar_admissions\<close> is a coroutine. It runs without interruption up to an
  \<^verbatim>\<open>await\<close> that suspends it, and its only such \<^verbatim>\<open>await\<close> is the execution of the
  query of a step (\<^verbatim>\<open>run_in_executor\<close> in \<^verbatim>\<open>_execute_query\<close>); until the answer is
  there, the event loop runs the other requests. A suspended call holds its own
  \<^verbatim>\<open>processed_data\<close> and \<^verbatim>\<open>max_results\<close>, the steps it has not reached yet, the
  steps it has announced, and the query it waits for; the query was built, with the
  identifiers found at that moment, before the \<^verbatim>\<open>await\<close>.
\<close>

datatype status = Awaiting query | Returned "result list"

record coroutine =
  co_processed_data :: processed
  co_max_results :: int
  co_later_steps :: "(nat \<times> (processed \<Rightarrow> int set \<Rightarrow> query)) list"
  co_executed :: "nat list"
  co_status :: status

text \<open>
  The loop \<^verbatim>\<open>for i, step_func in enumerate(steps, 1)\<close> from the head of an iteration
  to the next \<^verbatim>\<open>await\<close> or to the \<^verbatim>\<open>return\<close>: it breaks when
  \<^verbatim>\<open>len(self.results) >= max_results\<close>, otherwise it announces the step
  (\<^verbatim>\<open>logger.info(f"Executing Step {i}...")\<close>), builds its query and waits for the
  answer. The seventeen step functions do not raise: whatever the store raises is caught
  in \<^verbatim>\<open>_execute_query\<close>. A call that has returned has no steps left.
\<close>

definition loop_from ::
  "processed \<Rightarrow> int \<Rightarrow> (nat \<times> (processed \<Rightarrow> int set \<Rightarrow> query)) list \<Rightarrow> nat list \<Rightarrow> service
     \<Rightarrow> coroutine" where
  "loop_from processed_data max_results later announced self =
     (case later of
        [] \<Rightarrow>
          \<lparr> co_processed_data = processed_data, co_max_results = max_results,
            co_later_steps = [], co_executed = announced,
            co_status = Returned (final_results max_results self) \<rparr>
      | (i, build) # rest \<Rightarrow>
          if int (length (results self)) \<ge> max_results then
            \<lparr> co_processed_data = processed_data, co_max_results = max_results,
              co_later_steps = [], co_executed = announced,
              co_status = Returned (final_results max_results self) \<rparr>
          else
            \<lparr> co_processed_data = processed_data, co_max_results = max_results,
              co_later_steps = rest, co_executed = announced @ [i],
              co_status = Awaiting (build processed_data (found_admission_ids self)) \<rparr>)"

text \<open>
  \<^verbatim>\<open>search_similar_admissions\<close> from its call to its first \<^verbatim>\<open>await\<close>: the two fields
  of the service are reset, the input is normalized and the loop is entered.
\<close>

definition search_similar_admissions ::
  "datetime_lib \<Rightarrow> criteria \<Rightarrow> int \<Rightarrow> service \<Rightarrow> service \<times> coroutine" where
  "search_similar_admissions lib input_data max_results self =
     (let self' = self \<lparr> results := [], found_admission_ids := {} \<rparr> in
      (self', loop_from (calculate_age_and_los lib input_data) max_results
                (List.enumerate 1 step_queries) [] self'))"

text \<open>
  What a suspended call does when the answer to its query is there: the rows, if any, are
  appended to \<^verbatim>\<open>self.results\<close>, their first columns are added to
  \<^verbatim>\<open>self.found_admission_ids\<close>, and the loop goes on.
\<close>

definition resume_search :: "client \<Rightarrow> query \<Rightarrow> coroutine \<Rightarrow> service \<Rightarrow> service \<times> coroutine" where
  "resume_search client q co self =
     (let step_results = execute_query client q;
          self' = (if step_results \<noteq> [] then
                     self \<lparr> results := results self @ step_results,
                            found_admission_ids :=
                              found_admission_ids self
                                \<union> (\<lambda>r. AdmissionId (r_row r)) ` set step_results \<rparr>
                   else self)
      in (self', loop_from (co_processed_data co) (co_max_results co) (co_later_steps co)
                   (co_executed co) self'))"

text \<open>
  The process: the one service and the calls of \<^verbatim>\<open>search_similar_admissions\<close> that
  are under way or have returned, by request number. Two things happen to it: a request
  arrives and its search starts, or the answer to the query of a suspended search
  arrives and that search goes on. An answer for a request that is not waiting changes
  nothing.
\<close>

record process =
  singleton :: service
  calls :: "nat \<Rightarrow> coroutine option"

datatype event = Request nat criteria int | Answer nat

fun fire :: "datetime_lib \<Rightarrow> client \<Rightarrow> process \<Rightarrow> event \<Rightarrow> process" where
  "fire lib client p (Request n input_data max_results) =
     (case search_similar_admissions lib input_data max_results (singleton p) of
        (self', co) \<Rightarrow> p \<lparr> singleton := self', calls := (calls p)(n \<mapsto> co) \<rparr>)"
| "fire lib client p (Answer n) =
     (case calls p n of
        None \<Rightarrow> p
      | Some co \<Rightarrow>
          (case co_status co of
             Returned _ \<Rightarrow> p
           | Awaiting q \<Rightarrow>
               (case resume_search client q co (singleton p) of
                  (self', co') \<Rightarrow> p \<lparr> singleton := self', calls := (calls p)(n \<mapsto> co') \<rparr>)))"

definition run_events :: "datetime_lib \<Rightarrow> client \<Rightarrow> event list \<Rightarrow> process \<Rightarrow> process" where
  "run_events lib client events p = foldl (fire lib client) p events"

text \<open>A process in which the service was just created and no request has arrived.\<close>

definition idle_process :: process where
  "idle_process = \<lparr> singleton = \<lparr> results = [], found_admission_ids = {} \<rparr>,
                    calls = (\<lambda>n. None) \<rparr>"

text \<open>What request \<open>n\<close> got back, and the steps its search announced.\<close>

definition outcome :: "process \<Rightarrow> nat \<Rightarrow> result list option" where
  "outcome p n =
     (case calls p n of
        None \<Rightarrow> None
      | Some co \<Rightarrow> (case co_status co of Returned rs \<Rightarrow> Some rs | Awaiting _ \<Rightarrow> None))"

definition executed_by :: "process \<Rightarrow> nat \<Rightarrow> nat list" where
  "executed_by p n = (case calls p n of None \<Rightarrow> [] | Some co \<Rightarrow> co_executed co)"

text \<open>
  A search that nothing interrupts: the request arrives and the answers to its queries
  (at most seventeen) arrive before anything else happens.
\<close>

definition alone :: "nat \<Rightarrow> criteria \<Rightarrow> int \<Rightarrow> event list" where
  "alone n input_data max_results = Request n input_data max_results # replicate 17 (Answer n)"

subsection \<open>A search that nothing interrupts, as one function\<close>

text \<open>
  When nothing else touches the service between the start and the end of a search, the
  loop is a function of the fields and of the steps announced. The properties below are
  first proved of this function and then carried over to the process, where the search
  is the run of the events \<open>alone\<close>.
\<close>

record search_state = service +
  executed :: "nat list"

definition initial_state :: search_state where
  "initial_state = \<lparr> results = [], found_admission_ids = {}, executed = [] \<rparr>"

definition with_executed :: "service \<Rightarrow> nat list \<Rightarrow> search_state" where
  "with_executed self announced =
     \<lparr> results = results self, found_admission_ids = found_admission_ids self,
       executed = announced \<rparr>"

definition service_of :: "search_state \<Rightarrow> service" where
  "service_of s = \<lparr> results = results s, found_admission_ids = found_admission_ids s \<rparr>"

fun uninterrupted_steps :: "int \<Rightarrow> processed \<Rightarrow> (nat \<times> step_fun) list \<Rightarrow> search_state \<Rightarrow> search_state" where
  "uninterrupted_steps max_results input_data [] s = s"
| "uninterrupted_steps max_results input_data ((i, step_func) # rest) s =
     (if int (length (results s)) \<ge> max_results then s
      else
        let s1 = s \<lparr> executed := executed s @ [i] \<rparr> in
        (case step_func input_data (found_admission_ids s1) of
           None \<Rightarrow> uninterrupted_steps max_results input_data rest s1
         | Some step_results \<Rightarrow>
             if step_results \<noteq> [] then
               uninterrupted_steps max_results input_data rest
                 (s1 \<lparr> results := results s1 @ step_results,
                      found_admission_ids :=
                        found_admission_ids s1 \<union> (\<lambda>r. AdmissionId (r_row r)) ` set step_results \<rparr>)
             else uninterrupted_steps max_results input_data rest s1))"

definition uninterrupted_run :: "datetime_lib \<Rightarrow> client \<Rightarrow> criteria \<Rightarrow> int \<Rightarrow> search_state" where
  "uninterrupted_run lib client input_data max_results =
     uninterrupted_steps max_results (calculate_age_and_los lib input_data)
       (List.enumerate 1 (steps client)) initial_state"

definition uninterrupted_search ::
  "datetime_lib \<Rightarrow> client \<Rightarrow> criteria \<Rightarrow> int \<Rightarrow> result list" where
  "uninterrupted_search lib client input_data max_results =
     sort_key get_step_number
       (slice_to max_results (results (uninterrupted_run lib client input_data max_results)))"

subsection \<open>Request validation and the controller's guard\<close>

text \<open>
  \<^verbatim>\<open>UnifiedSearchRequest\<close>. Every field but \<^verbatim>\<open>max_results\<close> is optional;
  the four integer fields take no part in the validation or in the search.
\<close>

record request =
  req_query :: "string option"
  req_max_results :: int
  req_organization_filter :: "string option"
  req_class_id :: "string option"
  req_class_name :: "string option"
  req_hospital_code :: "string option"
  req_hospital_name :: "string option"
  req_archetype :: "string option"
  req_hospital_region :: "string option"
  req_birthdate :: "string option"
  req_gender :: "string option"
  req_icd10 :: "string list option"
  req_icd9 :: "string list option"
  req_primary_doctor :: "string option"
  req_primary_doctor_id :: "int option"
  req_admission_type :: "string option"
  req_admission_id :: "int option"
  req_admission_date :: "string option"
  req_discharge_date :: "string option"
  req_anesthesia_doctor :: "string option"
  req_anesthesia_type :: "string option"
  req_surgery_nature :: "string option"
  req_payer_type :: "string option"
  req_payer_name :: "string option"
  req_payer_id :: "int option"
  req_patient_category :: "int option"

datatype rejection =
    Validation_error
  | Simple_query_not_supported
  | No_search_criteria

text \<open>Python truth of an optional string or list: present and not empty.\<close>

definition truthy :: "'a list option \<Rightarrow> bool" where
  "truthy v = (case v of None \<Rightarrow> False | Some xs \<Rightarrow> xs \<noteq> [])"

text \<open>
  \<^verbatim>\<open>validate_unified_fields\<close>, which runs before the fields are validated: a query or
  one of sixteen structured fields must be given.
\<close>

definition validate_unified_fields :: "request \<Rightarrow> rejection + request" where
  "validate_unified_fields values =
     (if \<not> truthy (req_query values) \<and> \<not> (
          truthy (req_class_id values) \<or> truthy (req_class_name values)
        \<or> truthy (req_hospital_code values) \<or> truthy (req_hospital_name values)
        \<or> truthy (req_archetype values) \<or> truthy (req_hospital_region values)
        \<or> truthy (req_birthdate values) \<or> truthy (req_gender values)
        \<or> truthy (req_icd10 values) \<or> truthy (req_icd9 values)
        \<or> truthy (req_primary_doctor values) \<or> truthy (req_admission_type values)
        \<or> truthy (req_anesthesia_doctor values) \<or> truthy (req_anesthesia_type values)
        \<or> truthy (req_payer_type values) \<or> truthy (req_payer_name values))
      then Inl Validation_error
      else Inr values)"

text \<open>
  The constraints of the fields: \<^verbatim>\<open>query\<close> has \<^verbatim>\<open>min_length=1, max_length=500\<close>
  when given, \<^verbatim>\<open>max_results\<close> has \<^verbatim>\<open>ge=1, le=20\<close>.
\<close>

definition field_constraints :: "request \<Rightarrow> bool" where
  "field_constraints r \<longleftrightarrow>
     (case req_query r of None \<Rightarrow> True | Some q \<Rightarrow> 1 \<le> length q \<and> length q \<le> 500)
     \<and> 1 \<le> req_max_results r \<and> req_max_results r \<le> 20"

definition validate_request :: "request \<Rightarrow> rejection + request" where
  "validate_request raw =
     (case validate_unified_fields raw of
        Inl e \<Rightarrow> Inl e
      | Inr values \<Rightarrow> if field_constraints values then Inr values else Inl Validation_error)"

text \<open>
  \<^verbatim>\<open>_extract_structured_data\<close> keeps the fields that are neither \<^verbatim>\<open>None\<close> nor
  empty; in the record an absent key is the empty string, the empty list or \<open>None\<close>.
\<close>

definition str_or_empty :: "'a list option \<Rightarrow> 'a list" where
  "str_or_empty v = (case v of None \<Rightarrow> [] | Some xs \<Rightarrow> xs)"

definition present :: "string option \<Rightarrow> string option" where
  "present v = (case v of None \<Rightarrow> None | Some s \<Rightarrow> if s = [] then None else Some s)"

definition extract_structured_data :: "request \<Rightarrow> criteria" where
  "extract_structured_data request =
     \<lparr> class_id = str_or_empty (req_class_id request),
       class_name = str_or_empty (req_class_name request),
       hospital_name = str_or_empty (req_hospital_name request),
       surgery_nature = str_or_empty (req_surgery_nature request),
       icd10 = str_or_empty (req_icd10 request),
       icd9 = str_or_empty (req_icd9 request),
       hospital_code = str_or_empty (req_hospital_code request),
       payer_name = str_or_empty (req_payer_name request),
       payer_type = str_or_empty (req_payer_type request),
       primary_doctor = str_or_empty (req_primary_doctor request),
       doctor_specialty = [],
       admission_type = str_or_empty (req_admission_type request),
       gender = str_or_empty (req_gender request),
       anesthesia_doctor = str_or_empty (req_anesthesia_doctor request),
       anesthesia_type = str_or_empty (req_anesthesia_type request),
       archetype = str_or_empty (req_archetype request),
       hospital_region = str_or_empty (req_hospital_region request),
       admission_date = present (req_admission_date request),
       birthdate = present (req_birthdate request),
       discharge_date = present (req_discharge_date request) \<rparr>"

text \<open>\<^verbatim>\<open>any(structured_data.values())\<close>\<close>

definition any_values :: "criteria \<Rightarrow> bool" where
  "any_values d \<longleftrightarrow>
     class_id d \<noteq> [] \<or> class_name d \<noteq> [] \<or> hospital_code d \<noteq> [] \<or> hospital_name d \<noteq> []
     \<or> archetype d \<noteq> [] \<or> hospital_region d \<noteq> [] \<or> truthy (birthdate d) \<or> gender d \<noteq> []
     \<or> icd10 d \<noteq> [] \<or> icd9 d \<noteq> [] \<or> primary_doctor d \<noteq> [] \<or> admission_type d \<noteq> []
     \<or> truthy (admission_date d) \<or> truthy (discharge_date d) \<or> anesthesia_doctor d \<noteq> []
     \<or> anesthesia_type d \<noteq> [] \<or> surgery_nature d \<noteq> [] \<or> payer_type d \<noteq> []
     \<or> payer_name d \<noteq> []"

text \<open>
  The head of \<^verbatim>\<open>unified_search_with_billing\<close>: a request with a query is answered
  with an error, a request without criteria too; otherwise the search is called with the
  structured data and \<^verbatim>\<open>request.max_results\<close> (\<open>Inr\<close>).
\<close>

definition unified_search_guard :: "request \<Rightarrow> rejection + criteria \<times> int" where
  "unified_search_guard request =
     (if truthy (req_query request) then Inl Simple_query_not_supported
      else let structured_data = extract_structured_data request in
        if \<not> any_values structured_data then Inl No_search_criteria
        else Inr (structured_data, req_max_results request))"

text \<open>A request is validated by its schema, then handed to the controller.\<close>

definition handle_request :: "request \<Rightarrow> rejection + criteria \<times> int" where
  "handle_request raw =
     (case validate_request raw of
        Inl e \<Rightarrow> Inl e
      | Inr request \<Rightarrow> unified_search_guard request)"

subsection \<open>Values used in the examples\<close>

text \<open>An input dictionary without any key.\<close>

definition no_criteria :: criteria where
  "no_criteria =
     \<lparr> class_id = [], class_name = [], hospital_name = [], surgery_nature = [],
       icd10 = [], icd9 = [], hospital_code = [], payer_name = [], payer_type = [],
       primary_doctor = [], doctor_specialty = [], admission_type = [], gender = [],
       anesthesia_doctor = [], anesthesia_type = [], archetype = [], hospital_region = [],
       admission_date = None, birthdate = None, discharge_date = None \<rparr>"

text \<open>
  What \<^verbatim>\<open>datetime.strptime\<close> returns on the strings of the examples: the five dates
  below in their own format, and a \<^verbatim>\<open>ValueError\<close> on the date-only string
  \<^verbatim>\<open>2020-03-12\<close> read with the date-time format. No example has a \<^verbatim>\<open>T\<close> or a
  \<^verbatim>\<open>Z\<close>, so \<^verbatim>\<open>fromisoformat\<close> is never called.
\<close>

definition example_strptime :: "string \<Rightarrow> string \<Rightarrow> pydatetime option" where
  "example_strptime date_str fmt =
     (if fmt = ''%Y-%m-%d'' \<and> date_str = ''2000-03-10''
        then Some \<lparr> dt_year = 2000, dt_month = 3, dt_day = 10 \<rparr>
      else if fmt = ''%Y-%m-%d %H:%M:%S'' \<and> date_str = ''2020-03-09 00:00:00''
        then Some \<lparr> dt_year = 2020, dt_month = 3, dt_day = 9 \<rparr>
      else if fmt = ''%Y-%m-%d %H:%M:%S'' \<and> date_str = ''2020-03-10 00:00:00''
        then Some \<lparr> dt_year = 2020, dt_month = 3, dt_day = 10 \<rparr>
      else if fmt = ''%Y-%m-%d %H:%M:%S'' \<and> date_str = ''2021-01-01 00:00:00''
        then Some \<lparr> dt_year = 2021, dt_month = 1, dt_day = 1 \<rparr>
      else if fmt = ''%Y-%m-%d %H:%M:%S'' \<and> date_str = ''2021-01-04 00:00:00''
        then Some \<lparr> dt_year = 2021, dt_month = 1, dt_day = 4 \<rparr>
      else None)"

definition example_lib :: datetime_lib where
  "example_lib = \<lparr> fromisoformat = (\<lambda>s. None), strptime = example_strptime \<rparr>"

text \<open>A stored row with every column empty.\<close>

definition blank_admission :: admission where
  "blank_admission =
     \<lparr> AdmissionId = 0, AdmissionTypeName = [], OrganizationCode = [], Sex = [],
       PrimaryDoctor = [], Specialty = [], Region = [], Archetype = [],
       DiseaseClassification = [], ProcedureClassification = [], PayerName = [],
       PayerType = [], LengthOfStay = [], AnesthesiaDoctor = [], AnesthesiaType = [] \<rparr>"

subsection \<open>The specification's reading of the code scores\<close>

text \<open>
  The two quantities of the specification's score formula, in its own words: the number
  of input codes that occur in the stored field, and the number of codes in the stored
  field when it is cut at its \<^verbatim>\<open>;\<close> delimiters.
\<close>

definition matched_code_count :: "string list \<Rightarrow> string \<Rightarrow> nat" where
  "matched_code_count codes field = length (filter (\<lambda>code. sublist code field) codes)"

definition delimited_code_count :: "string \<Rightarrow> nat" where
  "delimited_code_count field = length (split_on CHR '';'' field)"

subsection \<open>The criteria of each step\<close>


text \<open>The query of step \<open>i\<close>, for \<open>i\<close> from 1 to 17.\<close>

definition step_query :: "nat \<Rightarrow> processed \<Rightarrow> int set \<Rightarrow> query" where
  "step_query i = step_queries ! (i - 1)"

text \<open>A row is a candidate of a query when it satisfies every condition of its
  \<^verbatim>\<open>WHERE\<close> clause.\<close>

definition candidate :: "query \<Rightarrow> admission \<Rightarrow> bool" where
  "candidate q r \<longleftrightarrow> (\<forall>c \<in> set (q_where q). holds c r)"

subsection \<open>Requests with and without criteria\<close>

text \<open>A request with no field given and the default \<^verbatim>\<open>max_results\<close> of the schema.\<close>

definition blank_request :: request where
  "blank_request =
     \<lparr> req_query = None, req_max_results = 3, req_organization_filter = None,
       req_class_id = None, req_class_name = None, req_hospital_code = None,
       req_hospital_name = None, req_archetype = None, req_hospital_region = None,
       req_birthdate = None, req_gender = None, req_icd10 = None, req_icd9 = None,
       req_primary_doctor = None, req_primary_doctor_id = None, req_admission_type = None,
       req_admission_id = None, req_admission_date = None, req_discharge_date = None,
       req_anesthesia_doctor = None, req_anesthesia_type = None, req_surgery_nature = None,
       req_payer_type = None, req_payer_name = None, req_payer_id = None,
       req_patient_category = None \<rparr>"

text \<open>
  "At least one criteria field is non-empty", over the nineteen structured fields that
  the controller passes on, and over the sixteen of them that the schema's validator
  looks at (it does not look at the admission date, the discharge date and the surgery
  nature).
\<close>

definition structured_field_given :: "request \<Rightarrow> bool" where
  "structured_field_given r \<longleftrightarrow>
       truthy (req_class_id r) \<or> truthy (req_class_name r) \<or> truthy (req_hospital_code r)
     \<or> truthy (req_hospital_name r) \<or> truthy (req_archetype r)
     \<or> truthy (req_hospital_region r) \<or> truthy (req_birthdate r) \<or> truthy (req_gender r)
     \<or> truthy (req_icd10 r) \<or> truthy (req_icd9 r) \<or> truthy (req_primary_doctor r)
     \<or> truthy (req_admission_type r) \<or> truthy (req_admission_date r)
     \<or> truthy (req_discharge_date r) \<or> truthy (req_anesthesia_doctor r)
     \<or> truthy (req_anesthesia_type r) \<or> truthy (req_surgery_nature r)
     \<or> truthy (req_payer_type r) \<or> truthy (req_payer_name r)"

definition validated_field_given :: "request \<Rightarrow> bool" where
  "validated_field_given r \<longleftrightarrow>
       truthy (req_class_id r) \<or> truthy (req_class_name r) \<or> truthy (req_hospital_code r)
     \<or> truthy (req_hospital_name r) \<or> truthy (req_archetype r)
     \<or> truthy (req_hospital_region r) \<or> truthy (req_birthdate r) \<or> truthy (req_gender r)
     \<or> truthy (req_icd10 r) \<or> truthy (req_icd9 r) \<or> truthy (req_primary_doctor r)
     \<or> truthy (req_admission_type r) \<or> truthy (req_anesthesia_doctor r)
     \<or> truthy (req_anesthesia_type r) \<or> truthy (req_payer_type r)
     \<or> truthy (req_payer_name r)"

subsection \<open>Notions used to state the properties of the search\<close>

text \<open>\<^verbatim>\<open>result[0]\<close>, the admission identifier of a result.\<close>

definition result_id :: "result \<Rightarrow> int" where
  "result_id r = AdmissionId (r_row r)"

text \<open>The literal \<^verbatim>\<open>'STEP_i'\<close> that the query of step \<open>i\<close> selects as its last column.\<close>

definition step_tag :: "nat \<Rightarrow> string" where
  "step_tag i = ''STEP_'' @ decimal i"

text \<open>The search cut after its first \<open>k\<close> steps.\<close>

definition uninterrupted_prefix :: "datetime_lib \<Rightarrow> client \<Rightarrow> criteria \<Rightarrow> int \<Rightarrow> nat \<Rightarrow> search_state" where
  "uninterrupted_prefix lib client input_data max_results k =
     uninterrupted_steps max_results (calculate_age_and_los lib input_data)
       (take k (List.enumerate 1 (steps client))) initial_state"

text \<open>
  A store that honours its queries: every row it returns satisfies the \<^verbatim>\<open>WHERE\<close>
  clause of the query, and no answer holds two rows with the same identifier.
\<close>

definition honours_queries :: "client \<Rightarrow> bool" where
  "honours_queries client \<longleftrightarrow>
     (\<forall>q rows. client q = Some rows \<longrightarrow>
        distinct (map AdmissionId rows) \<and> (\<forall>r \<in> set rows. candidate q r))"

text \<open>
  Example stores. The first holds three rows of the hospital \<^verbatim>\<open>SHLV\<close> with their
  own identifiers and answers every query with its candidates among them, in table
  order. The second holds two rows for the same admission, of two payers, and returns
  both to the query of step 1. The third fails on the query of step 6, returns three
  rows to the query of step 7 and nothing to any other query.
\<close>

definition shlv_row :: "int \<Rightarrow> string \<Rightarrow> admission" where
  "shlv_row i payer =
     blank_admission \<lparr> AdmissionId := i, OrganizationCode := ''SHLV'', PayerName := payer \<rparr>"

definition table_client :: "admission list \<Rightarrow> client" where
  "table_client table q = Some (take (q_limit q) (filter (candidate q) table))"

definition shlv_table :: "admission list" where
  "shlv_table = [shlv_row 1 ''ACME'', shlv_row 2 ''ACME'', shlv_row 3 ''UMBRELLA'']"

definition duplicate_id_client :: client where
  "duplicate_id_client q =
     (if q_result_step q = ''STEP_1''
      then Some [shlv_row 7 ''ACME'', shlv_row 7 ''UMBRELLA'']
      else Some [])"

text \<open>
  A fourth store holds four rows of the hospital \<^verbatim>\<open>SHLV\<close>, two for each of two
  anesthesia doctors, and answers every query with its candidates among them.
\<close>

definition doctor_row :: "int \<Rightarrow> string \<Rightarrow> admission" where
  "doctor_row i doctor =
     blank_admission \<lparr> AdmissionId := i, OrganizationCode := ''SHLV'',
                       AnesthesiaDoctor := doctor \<rparr>"

definition doctors_table :: "admission list" where
  "doctors_table = [doctor_row 1 ''DrA'', doctor_row 2 ''DrA'', doctor_row 3 ''DrB'',
                    doctor_row 4 ''DrB'']"

definition step_6_failing_client :: client where
  "step_6_failing_client q =
     (if q_result_step q = ''STEP_6'' then None
      else if q_result_step q = ''STEP_7''
        then Some [shlv_row 1 ''ACME'', shlv_row 2 ''ACME'', shlv_row 3 ''UMBRELLA'']
      else Some [])"

section \<open>Properties\<close>

subsection \<open>The input normalizer\<close>

lemmas example_dates = parse_datetime_def example_lib_def example_strptime_def

text \<open>
  Claim C6, as the code has it. When the admission date and the birth date parse, and
  the discharge date is absent, empty or parses too, the derived age is
  \<open>admission.year - birth.year\<close>, one less if
  \<open>(admission.month, admission.day) < (birth.month, birth.day)\<close>. Birth 2000-03-10
  gives 19 at the admission date 2020-03-09 and 20 at 2020-03-10.
\<close>

theorem age_at_event_floor:
  "(admission_date input_data = Some a \<longrightarrow> parse_datetime lib a = Some admission \<longrightarrow>
    birthdate input_data = Some b \<longrightarrow> strptime lib b ''%Y-%m-%d'' = Some birth \<longrightarrow>
    (discharge_date input_data = None \<or> discharge_date input_data = Some []
      \<or> (\<exists>d discharge. discharge_date input_data = Some d \<and> parse_datetime lib d = Some discharge)) \<longrightarrow>
    calculated_age (calculate_age_and_los lib input_data)
      = dt_year admission - dt_year birth
        - (if (dt_month admission, dt_day admission) < (dt_month birth, dt_day birth) then 1 else 0))
   \<and> calculated_age (calculate_age_and_los example_lib
         (no_criteria \<lparr> admission_date := Some ''2020-03-09 00:00:00'',
                        birthdate := Some ''2000-03-10'' \<rparr>)) = 19
   \<and> calculated_age (calculate_age_and_los example_lib
         (no_criteria \<lparr> admission_date := Some ''2020-03-10 00:00:00'',
                        birthdate := Some ''2000-03-10'' \<rparr>)) = 20"
proof (intro conjI impI)
  assume "admission_date input_data = Some a" "parse_datetime lib a = Some admission"
    "birthdate input_data = Some b" "strptime lib b ''%Y-%m-%d'' = Some birth"
    "discharge_date input_data = None \<or> discharge_date input_data = Some []
      \<or> (\<exists>d discharge. discharge_date input_data = Some d \<and> parse_datetime lib d = Some discharge)"
  then show "calculated_age (calculate_age_and_los lib input_data)
      = dt_year admission - dt_year birth
        - (if (dt_month admission, dt_day admission) < (dt_month birth, dt_day birth) then 1 else 0)"
    by (auto simp: calculate_age_and_los_def criteria.extend_def age_at_admission_def)
next
  show "calculated_age (calculate_age_and_los example_lib
         (no_criteria \<lparr> admission_date := Some ''2020-03-09 00:00:00'',
                        birthdate := Some ''2000-03-10'' \<rparr>)) = 19"
    by (simp add: calculate_age_and_los_def no_criteria_def example_dates criteria.extend_def
          age_at_admission_def)
next
  show "calculated_age (calculate_age_and_los example_lib
         (no_criteria \<lparr> admission_date := Some ''2020-03-10 00:00:00'',
                        birthdate := Some ''2000-03-10'' \<rparr>)) = 20"
    by (simp add: calculate_age_and_los_def no_criteria_def example_dates criteria.extend_def
          age_at_admission_def)
qed

theorem age_at_event_floor_witness:
  "calculated_age (calculate_age_and_los example_lib
     (no_criteria \<lparr> admission_date := Some ''2020-03-09 00:00:00'',
                    birthdate := Some ''2000-03-10'',
                    discharge_date := Some ''2020-03-10 00:00:00'' \<rparr>)) = 19"
proof -
  let ?d = "no_criteria \<lparr> admission_date := Some ''2020-03-09 00:00:00'',
                    birthdate := Some ''2000-03-10'',
                    discharge_date := Some ''2020-03-10 00:00:00'' \<rparr>"
  have h1: "admission_date ?d = Some ''2020-03-09 00:00:00''" by simp
  have h2: "parse_datetime example_lib ''2020-03-09 00:00:00''
              = Some \<lparr> dt_year = 2020, dt_month = 3, dt_day = 9 \<rparr>"
    by (simp add: example_dates)
  have h3: "birthdate ?d = Some ''2000-03-10''" by simp
  have h4: "strptime example_lib ''2000-03-10'' ''%Y-%m-%d''
              = Some \<lparr> dt_year = 2000, dt_month = 3, dt_day = 10 \<rparr>"
    by (simp add: example_dates)
  have h5: "discharge_date ?d = None \<or> discharge_date ?d = Some []
      \<or> (\<exists>d discharge. discharge_date ?d = Some d \<and> parse_datetime example_lib d = Some discharge)"
    by (simp add: example_dates)
  from age_at_event_floor [THEN conjunct1, rule_format, OF h1 h2 h3 h4 h5]
  show ?thesis by simp
qed

text \<open>
  The claim without the condition on the discharge date fails: the parse of the
  discharge date is inside the same \<^verbatim>\<open>try\<close>, so a date-only discharge date sends
  the age to its default 0 although both other dates parse.
\<close>

theorem age_unparseable_end_date_counterexample:
  "parse_datetime example_lib ''2020-03-10 00:00:00''
     = Some \<lparr> dt_year = 2020, dt_month = 3, dt_day = 10 \<rparr>
   \<and> strptime example_lib ''2000-03-10'' ''%Y-%m-%d''
     = Some \<lparr> dt_year = 2000, dt_month = 3, dt_day = 10 \<rparr>
   \<and> calculated_age (calculate_age_and_los example_lib
        (no_criteria \<lparr> admission_date := Some ''2020-03-10 00:00:00'',
                       birthdate := Some ''2000-03-10'',
                       discharge_date := Some ''2020-03-12'' \<rparr>)) = 0"
  by (simp add: calculate_age_and_los_def no_criteria_def example_dates age_los_defaults_def
        criteria.extend_def)

text \<open>
  Claim C7, as the code has it. When the admission date, the birth date and a non-empty
  discharge date all parse, the length of stay is the difference of the two dates in
  whole days (2021-01-01 to 2021-01-04 is 3). Without a discharge date it is the empty
  value, which is not 0, and then every query that has a \<^verbatim>\<open>los_diff\<close> column (steps 5
  to 17) selects the constant 0 for it.
\<close>

theorem stay_duration:
  "(admission_date input_data = Some a \<longrightarrow> parse_datetime lib a = Some admission \<longrightarrow>
    birthdate input_data = Some b \<longrightarrow> strptime lib b ''%Y-%m-%d'' = Some birth \<longrightarrow>
    discharge_date input_data = Some d \<longrightarrow> d \<noteq> [] \<longrightarrow> parse_datetime lib d = Some discharge \<longrightarrow>
    calculated_los (calculate_age_and_los lib input_data)
      = Some (toordinal discharge - toordinal admission))
   \<and> calculated_los (calculate_age_and_los example_lib
         (no_criteria \<lparr> admission_date := Some ''2021-01-01 00:00:00'',
                        birthdate := Some ''2000-03-10'',
                        discharge_date := Some ''2021-01-04 00:00:00'' \<rparr>)) = Some 3
   \<and> (discharge_date input_data = None \<or> discharge_date input_data = Some [] \<longrightarrow>
        calculated_los (calculate_age_and_los lib input_data) = None
        \<and> calculated_los (calculate_age_and_los lib input_data) \<noteq> Some 0)
   \<and> (calculated_los p = None \<longrightarrow>
        (\<forall>build \<in> set (drop 4 step_queries).
           q_los_diff (build p found) = Some Los_zero)
        \<and> (\<forall>r. los_diff_value toInt32OrZero (get_los_diff_calculation p) r = 0))"
proof (intro conjI impI)
  assume "admission_date input_data = Some a" "parse_datetime lib a = Some admission"
    "birthdate input_data = Some b" "strptime lib b ''%Y-%m-%d'' = Some birth"
    "discharge_date input_data = Some d" "d \<noteq> []" "parse_datetime lib d = Some discharge"
  then show "calculated_los (calculate_age_and_los lib input_data)
      = Some (toordinal discharge - toordinal admission)"
    by (simp add: calculate_age_and_los_def criteria.extend_def days_between_def)
next
  show "calculated_los (calculate_age_and_los example_lib
         (no_criteria \<lparr> admission_date := Some ''2021-01-01 00:00:00'',
                        birthdate := Some ''2000-03-10'',
                        discharge_date := Some ''2021-01-04 00:00:00'' \<rparr>)) = Some 3"
    by (simp add: calculate_age_and_los_def no_criteria_def example_dates criteria.extend_def
          days_between_def toordinal_def days_before_year_def days_before_month_def)
next
  assume "discharge_date input_data = None \<or> discharge_date input_data = Some []"
  then show "calculated_los (calculate_age_and_los lib input_data) = None"
    by (auto simp: calculate_age_and_los_def criteria.extend_def age_los_defaults_def
          split: option.splits)
  then show "calculated_los (calculate_age_and_los lib input_data) \<noteq> Some 0"
    by simp
next
  assume "calculated_los p = None"
  then show "\<forall>build \<in> set (drop 4 step_queries). q_los_diff (build p found) = Some Los_zero"
    by (simp add: step_queries_def get_los_diff_calculation_def
          step_5_query_def step_6_query_def step_7_query_def step_8_query_def step_9_query_def
          step_10_query_def step_11_query_def step_12_query_def step_13_query_def
          step_14_query_def step_15_query_def step_16_query_def step_17_query_def)
next
  assume "calculated_los p = None"
  then show "\<forall>r. los_diff_value toInt32OrZero (get_los_diff_calculation p) r = 0"
    by (simp add: get_los_diff_calculation_def)
qed

theorem stay_duration_witness:
  "calculated_los (calculate_age_and_los example_lib
     (no_criteria \<lparr> admission_date := Some ''2021-01-01 00:00:00'',
                    birthdate := Some ''2000-03-10'',
                    discharge_date := Some ''2021-01-04 00:00:00'' \<rparr>))
     = Some (toordinal \<lparr> dt_year = 2021, dt_month = 1, dt_day = 4 \<rparr>
             - toordinal \<lparr> dt_year = 2021, dt_month = 1, dt_day = 1 \<rparr>)
   \<and> calculated_los (calculate_age_and_los example_lib no_criteria) = None
   \<and> q_los_diff (step_5_query (calculate_age_and_los example_lib no_criteria) {}) = Some Los_zero"
proof -
  let ?d = "no_criteria \<lparr> admission_date := Some ''2021-01-01 00:00:00'',
                    birthdate := Some ''2000-03-10'',
                    discharge_date := Some ''2021-01-04 00:00:00'' \<rparr>"
  let ?p = "calculate_age_and_los example_lib no_criteria"
  have h1: "admission_date ?d = Some ''2021-01-01 00:00:00''" by simp
  have h2: "parse_datetime example_lib ''2021-01-01 00:00:00''
              = Some \<lparr> dt_year = 2021, dt_month = 1, dt_day = 1 \<rparr>"
    by (simp add: example_dates)
  have h3: "birthdate ?d = Some ''2000-03-10''" by simp
  have h4: "strptime example_lib ''2000-03-10'' ''%Y-%m-%d''
              = Some \<lparr> dt_year = 2000, dt_month = 3, dt_day = 10 \<rparr>"
    by (simp add: example_dates)
  have h5: "discharge_date ?d = Some ''2021-01-04 00:00:00''" by simp
  have h6: "''2021-01-04 00:00:00'' \<noteq> []" by simp
  have h7: "parse_datetime example_lib ''2021-01-04 00:00:00''
              = Some \<lparr> dt_year = 2021, dt_month = 1, dt_day = 4 \<rparr>"
    by (simp add: example_dates)
  have h8: "discharge_date no_criteria = None \<or> discharge_date no_criteria = Some []"
    by (simp add: no_criteria_def)
  have a: "calculated_los (calculate_age_and_los example_lib ?d)
     = Some (toordinal \<lparr> dt_year = 2021, dt_month = 1, dt_day = 4 \<rparr>
             - toordinal \<lparr> dt_year = 2021, dt_month = 1, dt_day = 1 \<rparr>)"
    by (rule stay_duration [THEN conjunct1, rule_format, OF h1 h2 h3 h4 h5 h6 h7])
  have b: "calculated_los ?p = None"
    using stay_duration [THEN conjunct2, THEN conjunct2, THEN conjunct1, rule_format, OF h8]
    by (rule conjunct1)
  have c: "step_5_query \<in> set (drop 4 step_queries)"
    by (simp add: step_queries_def)
  have "q_los_diff (step_5_query ?p {}) = Some Los_zero"
    using stay_duration [THEN conjunct2, THEN conjunct2, THEN conjunct2, rule_format, OF b]
      c by blast
  with a b show ?thesis by blast
qed

text \<open>
  The claim for every input with a parseable discharge date fails: the birth date is
  read inside the same \<^verbatim>\<open>try\<close>, so without a birth date the length of stay is
  empty although both of its dates parse.
\<close>

theorem duration_missing_birthdate_counterexample:
  "parse_datetime example_lib ''2021-01-01 00:00:00''
     = Some \<lparr> dt_year = 2021, dt_month = 1, dt_day = 1 \<rparr>
   \<and> parse_datetime example_lib ''2021-01-04 00:00:00''
     = Some \<lparr> dt_year = 2021, dt_month = 1, dt_day = 4 \<rparr>
   \<and> calculated_los (calculate_age_and_los example_lib
        (no_criteria \<lparr> admission_date := Some ''2021-01-01 00:00:00'',
                       discharge_date := Some ''2021-01-04 00:00:00'' \<rparr>)) = None"
  by (simp add: calculate_age_and_los_def no_criteria_def example_dates age_los_defaults_def
        criteria.extend_def)

subsection \<open>Code filters and scores\<close>

lemmas icd_parts = icd10_filter_def icd9_filter_def icd10_score_def icd9_score_def
  exact_filter_def partial_filter_def build_exact_codes_string_def build_enhanced_score_def

lemmas normalize_defs = calculate_age_and_los_def no_criteria_def age_los_defaults_def
  criteria.extend_def

text \<open>
  A text without quote and backslash is the literal of itself, and so is the list of
  such codes joined with a semicolon and a space; an equality with it holds of the
  stored values equal to it.
\<close>

lemma literal_as_written: "as_written s \<Longrightarrow> sql_literal s = Some s"
  by (induction s rule: induct_list012) (simp_all add: as_written_def)

lemma as_written_append: "as_written (xs @ ys) \<longleftrightarrow> as_written xs \<and> as_written ys"
  by (simp add: as_written_def)

lemma as_written_join:
  "list_all as_written codes \<Longrightarrow> as_written (join ''; '' codes)"
  by (induction "''; ''" codes rule: join.induct) (simp_all add: as_written_def)

lemma equals_as_written: "as_written v \<Longrightarrow> equals_value v field \<longleftrightarrow> field = v"
  by (auto simp: equals_value_def literal_as_written)

lemma plain_as_written: "plain v \<Longrightarrow> as_written v"
  by (simp add: plain_def as_written_def list_all_iff)

text \<open>
  A \<^verbatim>\<open>%\<close> at the head of a pattern skips any prefix of the value, and a code without
  wild cards matches itself only; so \<^verbatim>\<open>LIKE '%code%'\<close> with such a code holds of the
  values that contain the code.
\<close>

lemma like_any_run:
  "like (CHR ''%'' # ps) s \<longleftrightarrow> (\<exists>t. suffix t s \<and> like ps t)"
proof (induction s)
  case Nil
  then show ?case by simp
next
  case (Cons c s)
  have "like (CHR ''%'' # ps) (c # s) \<longleftrightarrow> like ps (c # s) \<or> like (CHR ''%'' # ps) s" by simp
  also have "\<dots> \<longleftrightarrow> like ps (c # s) \<or> (\<exists>t. suffix t s \<and> like ps t)" by (simp only: Cons.IH)
  also have "\<dots> \<longleftrightarrow> (\<exists>t. suffix t (c # s) \<and> like ps t)" by (auto simp: suffix_Cons)
  finally show ?case .
qed

lemma like_plain:
  "plain code \<Longrightarrow> like (code @ ps) s \<longleftrightarrow> (\<exists>t. s = code @ t \<and> like ps t)"
proof (induction code arbitrary: s)
  case Nil
  then show ?case by simp
next
  case (Cons c code)
  then have c: "c \<noteq> CHR ''%''" "c \<noteq> CHR ''_''" "c \<noteq> CHR 0x5C" and p: "plain code"
    by (simp_all add: plain_def)
  show ?case
    using c Cons.IH [OF p] by (cases s) auto
qed

lemma like_code_plain: "plain code \<Longrightarrow> like_code code field \<longleftrightarrow> sublist code field"
proof -
  assume p: "plain code"
  from plain_as_written [OF p] have "as_written (CHR ''%'' # code @ ''%'')"
    by (simp add: as_written_def)
  then have l: "sql_literal (CHR ''%'' # code @ ''%'') = Some (CHR ''%'' # code @ ''%'')"
    by (rule literal_as_written)
  have "like_code code field \<longleftrightarrow> (\<exists>t. suffix t field \<and> (\<exists>u. t = code @ u))"
    by (simp add: like_code_def l like_any_run like_plain [OF p] del: like.simps(2))
  also have "\<dots> \<longleftrightarrow> sublist code field"
    by (auto simp: sublist_def suffix_def)
  finally show ?thesis .
qed

lemma base_score_counts:
  "list_all plain codes \<Longrightarrow>
     base_score c codes r = int (matched_code_count codes (column_value c r))"
  unfolding base_score_def matched_code_count_def
  by (induction codes) (simp_all add: like_code_plain)

text \<open>
  Claim C4, as the code has it. For a non-empty list of input codes that have no quote
  and no backslash, the exact filter accepts exactly the stored rows whose code field
  equals the input codes joined with a semicolon and a space, in the input's order; this
  holds for both code families in the exact steps and for the procedure family in the
  mixed and the procedure-only exact steps. The stored field \<^verbatim>\<open>A; B\<close> is matched by
  the input \<^verbatim>\<open>["A", "B"]\<close> and not by \<^verbatim>\<open>["B", "A"]\<close>.
\<close>

theorem exact_filter_order_sensitive:
  "(list_all as_written (icd10 p) \<longrightarrow> icd10 p \<noteq> [] \<longrightarrow>
      holds (icd10_filter p Exact) r = (DiseaseClassification r = join ''; '' (icd10 p)))
   \<and> (list_all as_written (icd9 p) \<longrightarrow> icd9 p \<noteq> [] \<longrightarrow>
      holds (icd9_filter p Exact) r = (ProcedureClassification r = join ''; '' (icd9 p))
      \<and> holds (icd9_filter p Mixed) r = (ProcedureClassification r = join ''; '' (icd9 p))
      \<and> holds (icd9_filter p Icd9_only_exact) r
          = (ProcedureClassification r = join ''; '' (icd9 p)))
   \<and> holds (icd10_filter (calculate_age_and_los lib (no_criteria \<lparr> icd10 := [''A'', ''B''] \<rparr>)) Exact)
        (blank_admission \<lparr> DiseaseClassification := ''A; B'' \<rparr>)
   \<and> \<not> holds (icd10_filter (calculate_age_and_los lib (no_criteria \<lparr> icd10 := [''B'', ''A''] \<rparr>)) Exact)
        (blank_admission \<lparr> DiseaseClassification := ''A; B'' \<rparr>)"
proof (intro conjI impI)
  assume "list_all as_written (icd10 p)" and "icd10 p \<noteq> []"
  then show "holds (icd10_filter p Exact) r = (DiseaseClassification r = join ''; '' (icd10 p))"
    by (simp add: icd_parts equals_as_written [OF as_written_join])
next
  assume a: "list_all as_written (icd9 p)" and n: "icd9 p \<noteq> []"
  from n show "holds (icd9_filter p Exact) r = (ProcedureClassification r = join ''; '' (icd9 p))"
    by (simp add: icd_parts equals_as_written [OF as_written_join [OF a]])
  from n show "holds (icd9_filter p Mixed) r = (ProcedureClassification r = join ''; '' (icd9 p))"
    by (simp add: icd_parts equals_as_written [OF as_written_join [OF a]])
  from n show "holds (icd9_filter p Icd9_only_exact) r
          = (ProcedureClassification r = join ''; '' (icd9 p))"
    by (simp add: icd_parts equals_as_written [OF as_written_join [OF a]])
next
  show "holds (icd10_filter (calculate_age_and_los lib (no_criteria \<lparr> icd10 := [''A'', ''B''] \<rparr>)) Exact)
        (blank_admission \<lparr> DiseaseClassification := ''A; B'' \<rparr>)"
    by (simp add: icd_parts normalize_defs blank_admission_def equals_value_def)
next
  show "\<not> holds (icd10_filter (calculate_age_and_los lib (no_criteria \<lparr> icd10 := [''B'', ''A''] \<rparr>)) Exact)
        (blank_admission \<lparr> DiseaseClassification := ''A; B'' \<rparr>)"
    by (simp add: icd_parts normalize_defs blank_admission_def equals_value_def)
qed

theorem exact_filter_order_sensitive_witness:
  "\<not> holds (icd10_filter
        (calculate_age_and_los example_lib (no_criteria \<lparr> icd10 := [''A'', ''B''] \<rparr>)) Exact)
      (blank_admission \<lparr> DiseaseClassification := ''B; A'' \<rparr>)"
proof -
  let ?p = "calculate_age_and_los example_lib (no_criteria \<lparr> icd10 := [''A'', ''B''] \<rparr>)"
  have c: "icd10 ?p = [''A'', ''B'']"
    by (simp add: normalize_defs)
  have w: "list_all as_written (icd10 ?p)" unfolding c by (simp add: as_written_def)
  have h: "icd10 ?p \<noteq> []" unfolding c by simp
  have j: "join ''; '' (icd10 ?p) = ''A; B''" unfolding c by simp
  from exact_filter_order_sensitive [THEN conjunct1, rule_format, OF w h,
      of "blank_admission \<lparr> DiseaseClassification := ''B; A'' \<rparr>"]
  show ?thesis unfolding j by simp
qed

text \<open>
  With the bare semicolon of the claim as the separator the statement fails: the stored
  field \<^verbatim>\<open>A;B\<close> is the input \<^verbatim>\<open>["A", "B"]\<close> joined with \<^verbatim>\<open>;\<close>, and the
  exact filter rejects it. For every input code list it fails too: the codes are pasted
  between the quotes as they are, so the one code \<^verbatim>\<open>O'1\<close> does not match the stored
  field \<^verbatim>\<open>O'1\<close>, which is that list joined with any separator.
\<close>

theorem exact_filter_semicolon_join_counterexample:
  "DiseaseClassification (blank_admission \<lparr> DiseaseClassification := ''A;B'' \<rparr>)
     = join '';'' [''A'', ''B'']
   \<and> \<not> holds (icd10_filter
          (calculate_age_and_los example_lib (no_criteria \<lparr> icd10 := [''A'', ''B''] \<rparr>)) Exact)
        (blank_admission \<lparr> DiseaseClassification := ''A;B'' \<rparr>)
   \<and> DiseaseClassification
        (blank_admission \<lparr> DiseaseClassification := [CHR ''O'', CHR 0x27, CHR ''1''] \<rparr>)
     = join '';'' [[CHR ''O'', CHR 0x27, CHR ''1'']]
   \<and> \<not> holds (icd10_filter
          (calculate_age_and_los example_lib
             (no_criteria \<lparr> icd10 := [[CHR ''O'', CHR 0x27, CHR ''1'']] \<rparr>)) Exact)
        (blank_admission \<lparr> DiseaseClassification := [CHR ''O'', CHR 0x27, CHR ''1''] \<rparr>)"
  by (simp add: icd_parts normalize_defs blank_admission_def equals_value_def)

text \<open>
  The penalty compares \<^verbatim>\<open>length(field) - length(replace(field, ';', '')) + 1\<close> with
  the number of input codes; the left side is the number of pieces of the field cut at
  its semicolons.
\<close>

lemma length_split_on: "length (split_on c s) = Suc (length (filter (\<lambda>x. x = c) s))"
  by (induction s) (auto split: list.splits)

lemma semicolons_by_length:
  "int (length s) - int (length (filter (\<lambda>ch. ch \<noteq> c) s)) + 1 = int (length (split_on c s))"
proof -
  have "length s = length (filter (\<lambda>ch. ch = c) s) + length (filter (\<lambda>ch. ch \<noteq> c) s)"
    using sum_length_filter_compl [of "\<lambda>ch. ch = c" s] by simp
  then show ?thesis by (simp add: length_split_on)
qed

lemma enhanced_score_value:
  "list_all plain codes \<Longrightarrow> codes \<noteq> [] \<Longrightarrow>
     score_value (build_enhanced_score codes c) r
     = of_nat (matched_code_count codes (column_value c r))
       + (if delimited_code_count (column_value c r) > length codes then - (1 / 10) else 0)"
  by (simp add: build_enhanced_score_def base_score_counts code_count_penalty_def
        semicolons_by_length delimited_code_count_def)

lemma enhanced_score_empty: "score_value (build_enhanced_score [] c) r = 0"
  by (simp add: build_enhanced_score_def)

text \<open>
  Claim C5, as the code has it. The step types whose score counts matches are the mixed
  one (step 15), the procedure-only partial one (step 17, for the procedure family) and
  the partial one, which no step passes. In these, the score of a code family with a
  non-empty list of input codes without \<^verbatim>\<open>%\<close>, \<^verbatim>\<open>_\<close>, quote and backslash is the
  number of input codes that occur in the stored field as substrings, plus \<open>-0.1\<close>
  exactly when the stored field has more semicolon-delimited codes than the input has
  codes; the score of a family with an empty input list is 0. Scores are exact rationals
  here.
\<close>

theorem partial_score_formula:
  "(t \<in> {Partial, Mixed} \<longrightarrow> list_all plain (icd10 p) \<longrightarrow> icd10 p \<noteq> [] \<longrightarrow>
        score_value (icd10_score p t) r
          = of_nat (matched_code_count (icd10 p) (DiseaseClassification r))
            + (if delimited_code_count (DiseaseClassification r) > length (icd10 p)
               then - (1 / 10) else 0))
   \<and> (t \<in> {Partial, Mixed, Icd9_only_partial} \<longrightarrow> list_all plain (icd9 p) \<longrightarrow> icd9 p \<noteq> [] \<longrightarrow>
        score_value (icd9_score p t) r
          = of_nat (matched_code_count (icd9 p) (ProcedureClassification r))
            + (if delimited_code_count (ProcedureClassification r) > length (icd9 p)
               then - (1 / 10) else 0))
   \<and> (t \<in> {Partial, Mixed, Icd9_only_partial} \<longrightarrow> icd10 p = [] \<longrightarrow>
        score_value (icd10_score p t) r = 0)
   \<and> (t \<in> {Partial, Mixed, Icd9_only_partial} \<longrightarrow> icd9 p = [] \<longrightarrow>
        score_value (icd9_score p t) r = 0)
   \<and> q_icd10_match_count (step_15_query p F) = Some (icd10_score p Mixed)
   \<and> q_icd9_match_count (step_15_query p F) = Some (icd9_score p Mixed)
   \<and> q_icd9_match_count (step_17_query p F) = Some (icd9_score p Icd9_only_partial)"
proof (intro conjI impI)
  assume "t \<in> {Partial, Mixed}" and "list_all plain (icd10 p)" and "icd10 p \<noteq> []"
  then show "score_value (icd10_score p t) r
          = of_nat (matched_code_count (icd10 p) (DiseaseClassification r))
            + (if delimited_code_count (DiseaseClassification r) > length (icd10 p)
               then - (1 / 10) else 0)"
    using enhanced_score_value [of "icd10 p" Col_DiseaseClassification r]
    by (auto simp: icd10_score_def)
next
  assume "t \<in> {Partial, Mixed, Icd9_only_partial}" and "list_all plain (icd9 p)"
    and "icd9 p \<noteq> []"
  then show "score_value (icd9_score p t) r
          = of_nat (matched_code_count (icd9 p) (ProcedureClassification r))
            + (if delimited_code_count (ProcedureClassification r) > length (icd9 p)
               then - (1 / 10) else 0)"
    using enhanced_score_value [of "icd9 p" Col_ProcedureClassification r]
    by (auto simp: icd9_score_def)
next
  assume "t \<in> {Partial, Mixed, Icd9_only_partial}" and "icd10 p = []"
  then show "score_value (icd10_score p t) r = 0"
    by (auto simp: icd10_score_def enhanced_score_empty)
next
  assume "t \<in> {Partial, Mixed, Icd9_only_partial}" and "icd9 p = []"
  then show "score_value (icd9_score p t) r = 0"
    by (auto simp: icd9_score_def enhanced_score_empty)
next
  show "q_icd10_match_count (step_15_query p F) = Some (icd10_score p Mixed)"
    by (simp add: step_15_query_def)
  show "q_icd9_match_count (step_15_query p F) = Some (icd9_score p Mixed)"
    by (simp add: step_15_query_def)
  show "q_icd9_match_count (step_17_query p F) = Some (icd9_score p Icd9_only_partial)"
    by (simp add: step_17_query_def)
qed

theorem partial_score_formula_witness:
  "score_value (icd10_score (calculate_age_and_los example_lib
       (no_criteria \<lparr> icd10 := [''A01'', ''B02''] \<rparr>)) Mixed)
     (blank_admission \<lparr> DiseaseClassification := ''A01; C03; D04'' \<rparr>) = 9 / 10"
proof -
  let ?p = "calculate_age_and_los example_lib (no_criteria \<lparr> icd10 := [''A01'', ''B02''] \<rparr>)"
  let ?r = "blank_admission \<lparr> DiseaseClassification := ''A01; C03; D04'' \<rparr>"
  have t: "Mixed \<in> {Partial, Mixed}" by simp
  have c: "icd10 ?p = [''A01'', ''B02'']"
    by (simp add: normalize_defs)
  have w: "list_all plain (icd10 ?p)" unfolding c by (simp add: plain_def)
  have h: "icd10 ?p \<noteq> []" unfolding c by simp
  have m: "matched_code_count [''A01'', ''B02''] (DiseaseClassification ?r) = 1"
    by (simp add: matched_code_count_def sublist_code prefix_code)
  have n: "delimited_code_count (DiseaseClassification ?r) = 3"
    by (simp add: delimited_code_count_def)
  from partial_score_formula [THEN conjunct1, rule_format, OF t w h, of ?r]
  show ?thesis unfolding c m n by simp
qed

text \<open>
  For every input code list the claim fails: a code is pasted into the pattern as it is,
  so its \<^verbatim>\<open>_\<close> stands for any character. The code \<^verbatim>\<open>1_1\<close> does not occur in the
  stored field \<^verbatim>\<open>1.1\<close>, which has one code, and the score is 1, not 0.
\<close>

theorem score_wildcard_counterexample:
  "matched_code_count [''1_1''] ''1.1'' = 0
   \<and> delimited_code_count ''1.1'' = 1
   \<and> score_value (icd9_score (calculate_age_and_los example_lib
          (no_criteria \<lparr> icd9 := [''1_1''] \<rparr>)) Mixed)
        (blank_admission \<lparr> ProcedureClassification := ''1.1'' \<rparr>) = 1"
  by (simp add: matched_code_count_def sublist_code prefix_code delimited_code_count_def
        icd_parts normalize_defs blank_admission_def base_score_def like_code_def
        code_count_penalty_def)

subsection \<open>The conditions of the steps\<close>

lemmas step_query_defs =
  step_1_query_def step_2_query_def step_3_query_def step_4_query_def step_5_query_def
  step_6_query_def step_7_query_def step_8_query_def step_9_query_def step_10_query_def
  step_11_query_def step_12_query_def step_13_query_def step_14_query_def step_15_query_def
  step_16_query_def step_17_query_def









subsection \<open>Rejecting a request before the search\<close>

lemma truthy_str_or_empty: "truthy v \<longleftrightarrow> str_or_empty v \<noteq> []"
  by (simp add: truthy_def str_or_empty_def split: option.splits)

lemma str_or_empty_present: "str_or_empty (present v) = str_or_empty v"
  by (simp add: str_or_empty_def present_def split: option.splits)

lemma any_values_extract: "any_values (extract_structured_data r) \<longleftrightarrow> structured_field_given r"
  unfolding any_values_def structured_field_given_def extract_structured_data_def
  by (simp add: str_or_empty_present truthy_str_or_empty)

lemma validated_is_structured: "validated_field_given r \<Longrightarrow> structured_field_given r"
  unfolding validated_field_given_def structured_field_given_def by blast

lemma validate_unified_fields_iff:
  "validate_unified_fields r = (if \<not> truthy (req_query r) \<and> \<not> validated_field_given r
     then Inl Validation_error else Inr r)"
  unfolding validate_unified_fields_def validated_field_given_def by simp

text \<open>
  Claim C9, as the code has it. A request in which no structured field is non-empty is
  rejected with an error and the search is not called; so is a request in which none of
  the sixteen validated fields is non-empty. A request without a free-text query, with
  \<^verbatim>\<open>max_results\<close> from 1 to 20 and with one of the validated fields non-empty goes on
  to the search, with its structured data and its \<^verbatim>\<open>max_results\<close>.
\<close>

theorem request_guard:
  "(\<not> structured_field_given r \<longrightarrow> (\<exists>e. handle_request r = Inl e))
   \<and> (\<not> validated_field_given r \<longrightarrow> (\<exists>e. handle_request r = Inl e))
   \<and> (req_query r = None \<and> 1 \<le> req_max_results r \<and> req_max_results r \<le> 20
        \<and> validated_field_given r \<longrightarrow>
      handle_request r = Inr (extract_structured_data r, req_max_results r))"
proof (intro conjI impI)
  assume n: "\<not> validated_field_given r"
  show "\<exists>e. handle_request r = Inl e"
  proof (cases "truthy (req_query r)")
    case True
    then show ?thesis
      by (simp add: handle_request_def validate_request_def validate_unified_fields_iff
            unified_search_guard_def)
  next
    case False
    with n show ?thesis
      by (simp add: handle_request_def validate_request_def validate_unified_fields_iff)
  qed
next
  assume n: "\<not> structured_field_given r"
  then have "\<not> validated_field_given r" using validated_is_structured by blast
  then show "\<exists>e. handle_request r = Inl e"
    by (cases "truthy (req_query r)")
       (simp_all add: handle_request_def validate_request_def validate_unified_fields_iff
            unified_search_guard_def)
next
  assume a: "req_query r = None \<and> 1 \<le> req_max_results r \<and> req_max_results r \<le> 20
        \<and> validated_field_given r"
  then have q: "\<not> truthy (req_query r)" by (simp add: truthy_def)
  from a have "structured_field_given r" using validated_is_structured by blast
  then have "any_values (extract_structured_data r)" by (simp add: any_values_extract)
  with a q show "handle_request r = Inr (extract_structured_data r, req_max_results r)"
    by (simp add: handle_request_def validate_request_def validate_unified_fields_iff
          unified_search_guard_def field_constraints_def)
qed

theorem request_guard_witness:
  "handle_request (blank_request \<lparr> req_hospital_code := Some ''SHLV'' \<rparr>)
     = Inr (extract_structured_data (blank_request \<lparr> req_hospital_code := Some ''SHLV'' \<rparr>), 3)
   \<and> (\<exists>e. handle_request blank_request = Inl e)"
proof -
  let ?r = "blank_request \<lparr> req_hospital_code := Some ''SHLV'' \<rparr>"
  have h: "req_query ?r = None \<and> 1 \<le> req_max_results ?r \<and> req_max_results ?r \<le> 20
        \<and> validated_field_given ?r"
    by (simp add: blank_request_def validated_field_given_def truthy_def)
  have m: "req_max_results ?r = 3" by (simp add: blank_request_def)
  have n: "\<not> structured_field_given blank_request"
    by (simp add: blank_request_def structured_field_given_def truthy_def)
  have a: "handle_request ?r = Inr (extract_structured_data ?r, req_max_results ?r)"
    by (rule request_guard [THEN conjunct2, THEN conjunct2, rule_format, OF h])
  have b: "\<exists>e. handle_request blank_request = Inl e"
    by (rule request_guard [THEN conjunct1, rule_format, OF n])
  from a b show ?thesis unfolding m by blast
qed

text \<open>
  A non-empty structured field alone does not let the search proceed: a request that
  also carries a free-text query is answered with an error by the controller.
\<close>

theorem query_with_criteria_rejected_counterexample:
  "truthy (req_hospital_code (blank_request \<lparr> req_query := Some ''fever'',
                                              req_hospital_code := Some ''SHLV'' \<rparr>))
   \<and> handle_request (blank_request \<lparr> req_query := Some ''fever'',
                                     req_hospital_code := Some ''SHLV'' \<rparr>)
       = Inl Simple_query_not_supported"
  by (simp add: blank_request_def truthy_def handle_request_def validate_request_def
        validate_unified_fields_def field_constraints_def unified_search_guard_def)

subsection \<open>The loop over the steps\<close>

text \<open>
  Once the results are as many as asked for, the loop does nothing more; so running a
  list of steps is running its first part and then its second part from the state
  reached, and the steps announced are among those of the list.
\<close>

lemma uninterrupted_steps_done:
  "max_results \<le> int (length (results s)) \<Longrightarrow> uninterrupted_steps max_results d xs s = s"
  by (cases xs) auto

lemma uninterrupted_steps_append:
  "uninterrupted_steps max_results d (pre @ post) s
     = uninterrupted_steps max_results d post (uninterrupted_steps max_results d pre s)"
proof (induction pre arbitrary: s)
  case Nil
  then show ?case by simp
next
  case (Cons x pre)
  obtain i f where x: "x = (i, f)" by (cases x)
  show ?case
  proof (cases "max_results \<le> int (length (results s))")
    case True
    then show ?thesis by (simp add: x uninterrupted_steps_done)
  next
    case False
    then show ?thesis
      by (simp add: x Let_def Cons.IH split: option.splits)
  qed
qed

lemma executed_bounds:
  "set (executed (uninterrupted_steps max_results d xs s)) \<subseteq> set (executed s) \<union> fst ` set xs
   \<and> length (executed (uninterrupted_steps max_results d xs s)) \<le> length (executed s) + length xs"
proof (induction xs arbitrary: s)
  case Nil
  then show ?case by simp
next
  case (Cons x xs)
  obtain i f where x: "x = (i, f)" by (cases x)
  show ?case
  proof (cases "max_results \<le> int (length (results s))")
    case True
    then show ?thesis by (auto simp: x)
  next
    case False
    let ?s1 = "s \<lparr> executed := executed s @ [i] \<rparr>"
    show ?thesis
    proof (cases "f d (found_admission_ids s)")
      case None
      with False Cons.IH [of ?s1] show ?thesis by (auto simp: x Let_def)
    next
      case (Some rs)
      let ?s2 = "?s1 \<lparr> results := results ?s1 @ rs,
         found_admission_ids := found_admission_ids ?s1 \<union> (\<lambda>r. AdmissionId (r_row r)) ` set rs \<rparr>"
      from False Some Cons.IH [of ?s1] Cons.IH [of ?s2] show ?thesis
        by (cases "rs = []") (auto simp: x Let_def)
    qed
  qed
qed

lemma prefix_step_numbers:
  assumes "i \<in> fst ` set (take k (List.enumerate 1 xs))"
  shows "1 \<le> i \<and> i \<le> k"
proof -
  from assms obtain f where "(i, f) \<in> set (take k (List.enumerate 1 xs))" by auto
  then obtain j where j: "j < length (take k (List.enumerate 1 xs))"
    and e: "take k (List.enumerate 1 xs) ! j = (i, f)"
    by (auto simp: in_set_conv_nth)
  from j have "j < k" "j < length xs" by simp_all
  with e have "i = 1 + j" by (simp add: nth_enumerate_eq)
  with \<open>j < k\<close> show ?thesis by simp
qed

text \<open>
  In a search that nothing interrupts, when the accumulated results are at least
  \<^verbatim>\<open>max_results\<close> the loop calls no further step function, for any list of step
  functions. So if the first \<open>k\<close> steps reach \<^verbatim>\<open>max_results\<close> results, the search
  ends in the state those \<open>k\<close> steps reach: the steps announced are numbered from 1
  to \<open>k\<close> and are at most \<open>k\<close>.
\<close>

lemma uninterrupted_stops_when_enough:
  "(max_results \<le> int (length (results s)) \<longrightarrow> uninterrupted_steps max_results d xs s = s)
   \<and> (max_results \<le> int (length (results (uninterrupted_steps max_results d pre s))) \<longrightarrow>
        uninterrupted_steps max_results d (pre @ post) s = uninterrupted_steps max_results d pre s)
   \<and> (max_results \<le> int (length (results (uninterrupted_prefix lib client input_data max_results k))) \<longrightarrow>
        uninterrupted_run lib client input_data max_results
          = uninterrupted_prefix lib client input_data max_results k
        \<and> (\<forall>i \<in> set (executed (uninterrupted_run lib client input_data max_results)). 1 \<le> i \<and> i \<le> k)
        \<and> length (executed (uninterrupted_run lib client input_data max_results)) \<le> k)"
proof (intro conjI impI)
  assume "max_results \<le> int (length (results s))"
  then show "uninterrupted_steps max_results d xs s = s" by (rule uninterrupted_steps_done)
next
  assume "max_results \<le> int (length (results (uninterrupted_steps max_results d pre s)))"
  then show "uninterrupted_steps max_results d (pre @ post) s = uninterrupted_steps max_results d pre s"
    by (simp add: uninterrupted_steps_append uninterrupted_steps_done)
next
  let ?all = "List.enumerate 1 (steps client)"
  let ?d = "calculate_age_and_los lib input_data"
  assume a: "max_results \<le> int (length (results (uninterrupted_prefix lib client input_data max_results k)))"
  have "uninterrupted_run lib client input_data max_results
          = uninterrupted_steps max_results ?d (take k ?all @ drop k ?all) initial_state"
    by (simp add: uninterrupted_run_def)
  also have "\<dots> = uninterrupted_steps max_results ?d (drop k ?all)
                    (uninterrupted_prefix lib client input_data max_results k)"
    by (simp only: uninterrupted_steps_append uninterrupted_prefix_def)
  also have "\<dots> = uninterrupted_prefix lib client input_data max_results k"
    using a by (rule uninterrupted_steps_done)
  finally show eq: "uninterrupted_run lib client input_data max_results
          = uninterrupted_prefix lib client input_data max_results k" .
  have b: "set (executed (uninterrupted_prefix lib client input_data max_results k))
             \<subseteq> fst ` set (take k ?all)"
    and c: "length (executed (uninterrupted_prefix lib client input_data max_results k))
             \<le> length (take k ?all)"
    using executed_bounds [of max_results ?d "take k ?all" initial_state]
    by (simp_all add: uninterrupted_prefix_def initial_state_def)
  from b show "\<forall>i \<in> set (executed (uninterrupted_run lib client input_data max_results)). 1 \<le> i \<and> i \<le> k"
    unfolding eq using prefix_step_numbers by blast
  from c show "length (executed (uninterrupted_run lib client input_data max_results)) \<le> k"
    unfolding eq by simp
qed

lemma shlv_step_1:
  "step_of (table_client shlv_table) step_1_query
     (calculate_age_and_los example_lib (no_criteria \<lparr> hospital_code := ''SHLV'' \<rparr>)) {}
   = Some (map (\<lambda>r. \<lparr> r_row = r, r_result_step = ''STEP_1'' \<rparr>) shlv_table)"
  by (simp add: step_of_def execute_query_def table_client_def step_1_query_def candidate_def
        build_conditions_def List.map_filter_def build_condition_def strip_def py_isspace_def equals_value_def
        los_text_def icd_parts normalize_defs shlv_table_def shlv_row_def blank_admission_def)

lemma shlv_prefix_1:
  "results (uninterrupted_prefix example_lib (table_client shlv_table)
      (no_criteria \<lparr> hospital_code := ''SHLV'' \<rparr>) 2 1)
   = map (\<lambda>r. \<lparr> r_row = r, r_result_step = ''STEP_1'' \<rparr>) shlv_table"
  by (simp add: uninterrupted_prefix_def steps_def step_queries_def initial_state_def shlv_step_1)
     (simp add: shlv_table_def)

subsection \<open>The order of the outcome\<close>

text \<open>
  Every result of the search was appended by a step that was announced, carries the
  literal of that step in its last column, and has the number of that step as its sort
  key.
\<close>

lemma steps_1_to_17:
  "i \<in> {1..17} \<Longrightarrow>
     i \<in> {1, 2, 3, 4, 5, 6, 7, 8, 9, 10, 11, 12, 13, 14, 15, 16, 17 :: nat}"
  by (simp only: atLeastAtMost_iff insert_iff empty_iff) arith

lemma step_number_of_tag:
  assumes "i \<in> {1..17}" "r_result_step r = step_tag i"
  shows "get_step_number r = int i"
  using steps_1_to_17 [OF assms(1)] assms(2)
  by (simp only: insert_iff empty_iff, elim disjE)
     (simp_all add: step_tag_def decimal.simps get_step_number_def py_int_def int_strip_def
        int_isspace_def parse_unsigned_def digit_value_def)

lemma uninterrupted_steps_origin:
  assumes "\<forall>(i, f) \<in> set xs. \<forall>F rs. f d F = Some rs \<longrightarrow> (\<forall>r \<in> set rs. P i r)"
    and "\<forall>r \<in> set (results s). \<exists>i \<in> set (executed s). P i r"
  shows "\<forall>r \<in> set (results (uninterrupted_steps max_results d xs s)).
           \<exists>i \<in> set (executed (uninterrupted_steps max_results d xs s)). P i r"
  using assms
proof (induction xs arbitrary: s)
  case Nil
  then show ?case by simp
next
  case (Cons x xs)
  obtain i f where x: "x = (i, f)" by (cases x)
  from Cons.prems(1) have rest: "\<forall>(i, f) \<in> set xs. \<forall>F rs. f d F = Some rs \<longrightarrow> (\<forall>r \<in> set rs. P i r)"
    by simp
  from Cons.prems(1) have head: "\<And>F rs r. f d F = Some rs \<Longrightarrow> r \<in> set rs \<Longrightarrow> P i r"
    by (auto simp: x)
  show ?case
  proof (cases "max_results \<le> int (length (results s))")
    case True
    with Cons.prems(2) show ?thesis by (simp add: x)
  next
    case False
    let ?s1 = "s \<lparr> executed := executed s @ [i] \<rparr>"
    have inv1: "\<forall>r \<in> set (results ?s1). \<exists>i \<in> set (executed ?s1). P i r"
      using Cons.prems(2) by auto
    show ?thesis
    proof (cases "f d (found_admission_ids s)")
      case None
      with False Cons.IH [OF rest inv1] show ?thesis by (simp add: x Let_def)
    next
      case (Some rs)
      let ?s2 = "?s1 \<lparr> results := results ?s1 @ rs,
         found_admission_ids := found_admission_ids ?s1 \<union> (\<lambda>r. AdmissionId (r_row r)) ` set rs \<rparr>"
      have inv2: "\<forall>r \<in> set (results ?s2). \<exists>i \<in> set (executed ?s2). P i r"
        using Cons.prems(2) head [OF Some] by auto
      from False Some Cons.IH [OF rest inv1] Cons.IH [OF rest inv2] show ?thesis
        by (cases "rs = []") (simp_all add: x Let_def)
    qed
  qed
qed

lemma step_of_tag:
  "step_of client build d F = Some rs \<Longrightarrow> r \<in> set rs \<Longrightarrow> r_result_step r = q_result_step (build d F)"
  by (auto simp: step_of_def execute_query_def split: option.splits)

lemma enumerated_steps:
  assumes "(i, f) \<in> set (List.enumerate 1 (steps client))"
  shows "i \<in> {1..17} \<and> f = step_of client (step_queries ! (i - 1))"
proof -
  have n: "length step_queries = 17" by (simp add: step_queries_def)
  from assms have "1 \<le> i" "i < length (steps client) + 1" "steps client ! (i - 1) = f"
    by (simp_all add: in_set_enumerate_eq)
  then show ?thesis by (simp add: steps_def n)
qed

lemma query_tag:
  assumes "i \<in> {1..17}"
  shows "q_result_step ((step_queries ! (i - 1)) d F) = step_tag i"
  using steps_1_to_17 [OF assms]
  by (simp only: insert_iff empty_iff, elim disjE)
     (simp_all add: step_queries_def step_query_defs step_tag_def decimal.simps)

lemma results_tagged:
  "\<forall>r \<in> set (results (uninterrupted_run lib client input_data max_results)).
     \<exists>i \<in> set (executed (uninterrupted_run lib client input_data max_results)).
        i \<in> {1..17} \<and> r_result_step r = step_tag i \<and> get_step_number r = int i"
  unfolding uninterrupted_run_def
proof (rule uninterrupted_steps_origin)
  show "\<forall>(i, f) \<in> set (List.enumerate 1 (steps client)). \<forall>F rs.
          f (calculate_age_and_los lib input_data) F = Some rs \<longrightarrow>
          (\<forall>r \<in> set rs. i \<in> {1..17} \<and> r_result_step r = step_tag i \<and> get_step_number r = int i)"
  proof (intro ballI allI impI, clarify)
    fix i f F rs r
    assume m: "(i, f) \<in> set (List.enumerate 1 (steps client))"
      and f: "f (calculate_age_and_los lib input_data) F = Some rs" and r: "r \<in> set rs"
    from enumerated_steps [OF m] have i: "i \<in> {1..17}"
      and fe: "f = step_of client (step_queries ! (i - 1))" by simp_all
    from step_of_tag [OF f [unfolded fe] r] query_tag [OF i]
    have t: "r_result_step r = step_tag i" by simp
    with i step_number_of_tag [OF i t]
    show "i \<in> {1..17} \<and> r_result_step r = step_tag i \<and> get_step_number r = int i" by simp
  qed
next
  show "\<forall>r \<in> set (results initial_state). \<exists>i \<in> set (executed initial_state).
          i \<in> {1..17} \<and> r_result_step r = step_tag i \<and> get_step_number r = int i"
    by (simp add: initial_state_def)
qed

lemma slice_is_take:
  "slice_to max_results (results (uninterrupted_run lib client input_data max_results))
     = take (nat max_results) (results (uninterrupted_run lib client input_data max_results))"
proof (cases "0 \<le> max_results")
  case True
  then show ?thesis by (simp add: slice_to_def)
next
  case False
  then have "uninterrupted_run lib client input_data max_results = initial_state"
    unfolding uninterrupted_run_def by (intro uninterrupted_steps_done) (simp add: initial_state_def)
  then show ?thesis by (simp add: initial_state_def slice_to_def)
qed

text \<open>
  The outcome of a search that nothing interrupts is its accumulated results cut to the
  first \<^verbatim>\<open>max_results\<close> and sorted by the step number with a stable sort.
\<close>

lemma uninterrupted_outcome_sorted:
  "uninterrupted_search lib client input_data max_results
     = sort_key get_step_number
         (take (nat max_results) (results (uninterrupted_run lib client input_data max_results)))
   \<and> length (uninterrupted_search lib client input_data max_results) \<le> nat max_results
   \<and> sorted (map get_step_number (uninterrupted_search lib client input_data max_results))
   \<and> (\<forall>k. filter (\<lambda>r. get_step_number r = k)
             (uninterrupted_search lib client input_data max_results)
         = filter (\<lambda>r. get_step_number r = k)
             (take (nat max_results) (results (uninterrupted_run lib client input_data max_results))))
   \<and> (\<forall>r \<in> set (uninterrupted_search lib client input_data max_results).
         \<exists>i \<in> set (executed (uninterrupted_run lib client input_data max_results)).
            i \<in> {1..17} \<and> r_result_step r = step_tag i \<and> get_step_number r = int i)"
proof -
  let ?acc = "results (uninterrupted_run lib client input_data max_results)"
  have eq: "uninterrupted_search lib client input_data max_results
     = sort_key get_step_number (take (nat max_results) ?acc)"
    by (simp add: uninterrupted_search_def slice_is_take)
  have "set (take (nat max_results) ?acc) \<subseteq> set ?acc" by (rule set_take_subset)
  with results_tagged [of lib client input_data max_results]
  have tagged: "\<forall>r \<in> set (take (nat max_results) ?acc).
         \<exists>i \<in> set (executed (uninterrupted_run lib client input_data max_results)).
            i \<in> {1..17} \<and> r_result_step r = step_tag i \<and> get_step_number r = int i"
    by blast
  show ?thesis
    unfolding eq using tagged by (simp add: sort_key_stable)
qed

lemma shlv_search_state:
  "uninterrupted_run example_lib (table_client shlv_table)
      (no_criteria \<lparr> hospital_code := ''SHLV'' \<rparr>) 2
   = \<lparr> results = map (\<lambda>r. \<lparr> r_row = r, r_result_step = ''STEP_1'' \<rparr>) shlv_table,
       found_admission_ids = {1, 2, 3}, executed = [1] \<rparr>"
  by (simp add: uninterrupted_run_def steps_def step_queries_def initial_state_def shlv_step_1)
     (auto simp: shlv_table_def shlv_row_def)

subsection \<open>Identifiers in the outcome\<close>

text \<open>
  Every query after the first carries the exclusion clause, so none of its candidates
  has an identifier found before; when the store honours its queries, the accumulated
  results never hold an identifier twice, and cutting and sorting keep it so.
\<close>

lemma steps_2_to_17:
  "i \<in> {2..17} \<Longrightarrow>
     i \<in> {2, 3, 4, 5, 6, 7, 8, 9, 10, 11, 12, 13, 14, 15, 16, 17 :: nat}"
  by (simp only: atLeastAtMost_iff insert_iff empty_iff) arith

lemma later_step_queries:
  "i \<in> {2..17} \<Longrightarrow> step_query i \<in> set (tl step_queries)"
  by (drule steps_2_to_17, simp only: insert_iff empty_iff, elim disjE) (simp_all add: step_query_def step_queries_def)

lemma exclusion_in_where:
  assumes "build \<in> set (tl step_queries)"
  shows "set (get_exclusion_clause F) \<subseteq> set (q_where (build d F))"
proof -
  from assms consider "build = step_2_query" | "build = step_3_query" | "build = step_4_query"
    | "build = step_5_query" | "build = step_6_query" | "build = step_7_query"
    | "build = step_8_query" | "build = step_9_query" | "build = step_10_query"
    | "build = step_11_query" | "build = step_12_query" | "build = step_13_query"
    | "build = step_14_query" | "build = step_15_query" | "build = step_16_query"
    | "build = step_17_query"
    by (auto simp: step_queries_def)
  then show ?thesis
    by cases (auto simp: step_query_defs)
qed

lemma candidates_not_found:
  assumes "build \<in> set (tl step_queries)" "candidate (build d F) r"
  shows "AdmissionId r \<notin> F"
proof (cases "F = {}")
  case True
  then show ?thesis by simp
next
  case False
  then have "NotIn F \<in> set (q_where (build d F))"
    using exclusion_in_where [OF assms(1), of F d] by (simp add: get_exclusion_clause_def)
  with assms(2) have "holds (NotIn F) r" unfolding candidate_def by blast
  then show ?thesis by simp
qed

lemma step_rows_distinct:
  assumes "honours_queries client" "step_of client build d F = Some rs"
  shows "distinct (map result_id rs)"
proof (cases "client (build d F)")
  case None
  with assms(2) show ?thesis by (simp add: step_of_def execute_query_def)
next
  case (Some rows)
  with assms(1) have "distinct (map AdmissionId rows)" unfolding honours_queries_def by blast
  with Some assms(2) show ?thesis
    by (auto simp: step_of_def execute_query_def result_id_def comp_def)
qed

lemma step_rows_not_found:
  assumes "honours_queries client" "build \<in> set (tl step_queries)"
    "step_of client build d F = Some rs"
  shows "result_id ` set rs \<inter> F = {}"
proof (cases "client (build d F)")
  case None
  with assms(3) show ?thesis by (simp add: step_of_def execute_query_def)
next
  case (Some rows)
  with assms(1) have "\<forall>r \<in> set rows. candidate (build d F) r"
    unfolding honours_queries_def by blast
  then have "\<forall>r \<in> set rows. AdmissionId r \<notin> F"
    using candidates_not_found [OF assms(2)] by blast
  with Some assms(3) show ?thesis
    by (auto simp: step_of_def execute_query_def result_id_def)
qed

lemma uninterrupted_steps_distinct:
  assumes "\<forall>(i, f) \<in> set xs. \<forall>F rs. f d F = Some rs \<longrightarrow>
             distinct (map result_id rs) \<and> result_id ` set rs \<inter> F = {}"
    and "distinct (map result_id (results s))"
    and "found_admission_ids s = result_id ` set (results s)"
  shows "distinct (map result_id (results (uninterrupted_steps max_results d xs s)))"
  using assms
proof (induction xs arbitrary: s)
  case Nil
  then show ?case by simp
next
  case (Cons x xs)
  obtain i f where x: "x = (i, f)" by (cases x)
  from Cons.prems(1) have rest: "\<forall>(i, f) \<in> set xs. \<forall>F rs. f d F = Some rs \<longrightarrow>
             distinct (map result_id rs) \<and> result_id ` set rs \<inter> F = {}"
    by simp
  from Cons.prems(1) have head: "\<And>F rs. f d F = Some rs \<Longrightarrow>
             distinct (map result_id rs) \<and> result_id ` set rs \<inter> F = {}"
    by (auto simp: x)
  show ?case
  proof (cases "max_results \<le> int (length (results s))")
    case True
    with Cons.prems(2) show ?thesis by (simp add: x)
  next
    case False
    let ?s1 = "s \<lparr> executed := executed s @ [i] \<rparr>"
    have d1: "distinct (map result_id (results ?s1))"
      and f1: "found_admission_ids ?s1 = result_id ` set (results ?s1)"
      using Cons.prems(2,3) by simp_all
    show ?thesis
    proof (cases "f d (found_admission_ids s)")
      case None
      with False Cons.IH [OF rest d1 f1] show ?thesis by (simp add: x Let_def)
    next
      case (Some rs)
      let ?s2 = "?s1 \<lparr> results := results ?s1 @ rs,
         found_admission_ids := found_admission_ids ?s1 \<union> (\<lambda>r. AdmissionId (r_row r)) ` set rs \<rparr>"
      from head [OF Some] have hr: "distinct (map result_id rs)"
        "result_id ` set rs \<inter> found_admission_ids s = {}" by simp_all
      have d2: "distinct (map result_id (results ?s2))"
        using Cons.prems(2,3) hr by auto
      have f2: "found_admission_ids ?s2 = result_id ` set (results ?s2)"
        using Cons.prems(3) by (auto simp: result_id_def)
      from False Some Cons.IH [OF rest d1 f1] Cons.IH [OF rest d2 f2] show ?thesis
        by (cases "rs = []") (simp_all add: x Let_def)
    qed
  qed
qed

lemma steps_unfold:
  "List.enumerate 1 (steps client)
     = (1, step_of client step_1_query)
       # List.enumerate (Suc 1) (map (step_of client) (tl step_queries))"
  by (simp add: steps_def step_queries_def)

lemma later_steps:
  assumes "(i, f) \<in> set (List.enumerate n (map (step_of client) (tl step_queries)))"
  shows "\<exists>build \<in> set (tl step_queries). f = step_of client build"
proof -
  from assms have "i - n < length (tl step_queries)"
    and "map (step_of client) (tl step_queries) ! (i - n) = f"
    by (auto simp: in_set_enumerate_eq)
  then show ?thesis by (metis nth_map nth_mem)
qed

lemma accumulated_distinct:
  assumes "honours_queries client"
  shows "distinct (map result_id (results (uninterrupted_run lib client input_data max_results)))"
proof -
  let ?d = "calculate_age_and_los lib input_data"
  let ?rest = "List.enumerate (Suc 1) (map (step_of client) (tl step_queries))"
  let ?s1 = "uninterrupted_steps max_results ?d [(1, step_of client step_1_query)] initial_state"
  have split: "uninterrupted_run lib client input_data max_results = uninterrupted_steps max_results ?d ?rest ?s1"
    unfolding uninterrupted_run_def steps_unfold
    using uninterrupted_steps_append [of max_results ?d "[(1, step_of client step_1_query)]" ?rest]
    by simp
  obtain rs where rs: "step_of client step_1_query ?d {} = Some rs"
    by (simp add: step_of_def)
  from step_rows_distinct [OF assms rs] have drs: "distinct (map result_id rs)" .
  have d1: "distinct (map result_id (results ?s1))"
    using rs drs by (simp add: initial_state_def Let_def)
  have f1: "found_admission_ids ?s1 = result_id ` set (results ?s1)"
    using rs by (auto simp: initial_state_def Let_def result_id_def)
  have later: "\<forall>(i, f) \<in> set ?rest. \<forall>F rs. f ?d F = Some rs \<longrightarrow>
             distinct (map result_id rs) \<and> result_id ` set rs \<inter> F = {}"
  proof (intro ballI allI impI, clarify)
    fix i f F rs
    assume m: "(i, f) \<in> set ?rest" and f: "f ?d F = Some rs"
    from later_steps [OF m] obtain build where b: "build \<in> set (tl step_queries)"
      and fe: "f = step_of client build" by blast
    from step_rows_distinct [OF assms f [unfolded fe]]
      step_rows_not_found [OF assms b f [unfolded fe]]
    show "distinct (map result_id rs) \<and> result_id ` set rs \<inter> F = {}" by simp
  qed
  show ?thesis
    unfolding split by (rule uninterrupted_steps_distinct [OF later d1 f1])
qed

lemma distinct_ids_kept:
  assumes "distinct (map result_id xs)"
  shows "distinct (map result_id (sort_key k (slice_to n xs)))"
proof -
  obtain m where m: "slice_to n xs = take m xs"
    by (cases "0 \<le> n") (simp_all add: slice_to_def)
  from assms have "distinct (map result_id (take m xs))"
    by (simp add: take_map [symmetric] distinct_take)
  then show ?thesis
    unfolding m by (simp add: distinct_map)
qed

lemma table_client_honours:
  assumes "distinct (map AdmissionId table)"
  shows "honours_queries (table_client table)"
  unfolding honours_queries_def table_client_def
proof (intro allI impI conjI ballI)
  fix q rows r
  assume rows: "Some (take (q_limit q) (filter (candidate q) table)) = Some rows"
  from assms have "distinct (map AdmissionId (filter (candidate q) table))"
    by (rule distinct_map_filter)
  then have "distinct (map AdmissionId (take (q_limit q) (filter (candidate q) table)))"
    by (simp add: take_map [symmetric] distinct_take)
  with rows show "distinct (map AdmissionId rows)" by simp
  assume "r \<in> set rows"
  with rows have "r \<in> set (filter (candidate q) table)" by (auto dest: in_set_takeD)
  then show "candidate q r" by simp
qed

lemma uninterrupted_outcome_distinct:
  assumes "honours_queries client"
  shows "distinct (map result_id (uninterrupted_search lib client input_data max_results))"
  unfolding uninterrupted_search_def
  by (intro distinct_ids_kept accumulated_distinct assms)

lemma later_steps_exclude_found:
  assumes "i \<in> {2..17}"
  shows "F \<noteq> {} \<Longrightarrow> NotIn F \<in> set (q_where (step_query i d F))"
    and "candidate (step_query i d F) r \<Longrightarrow> AdmissionId r \<notin> F"
proof -
  assume F: "F \<noteq> {}"
  from exclusion_in_where [OF later_step_queries [OF assms], of F d] F
  show "NotIn F \<in> set (q_where (step_query i d F))"
    by (simp add: get_exclusion_clause_def)
next
  assume "candidate (step_query i d F) r"
  then show "AdmissionId r \<notin> F"
    using candidates_not_found [OF later_step_queries [OF assms]] by blast
qed

lemma duplicate_step_1:
  "step_of duplicate_id_client step_1_query d {}
   = Some [\<lparr> r_row = shlv_row 7 ''ACME'', r_result_step = ''STEP_1'' \<rparr>,
           \<lparr> r_row = shlv_row 7 ''UMBRELLA'', r_result_step = ''STEP_1'' \<rparr>]"
  by (simp add: step_of_def execute_query_def duplicate_id_client_def step_1_query_def)

lemma duplicate_rows_candidates:
  "candidate (step_1_query
       (calculate_age_and_los example_lib (no_criteria \<lparr> hospital_code := ''SHLV'' \<rparr>)) {})
     (shlv_row 7 payer)"
  by (simp add: step_1_query_def candidate_def build_conditions_def List.map_filter_def
        build_condition_def strip_def py_isspace_def los_text_def icd_parts normalize_defs
        shlv_row_def blank_admission_def equals_value_def)

lemma duplicate_rows_outcome:
  "map result_id (uninterrupted_search example_lib duplicate_id_client
         (no_criteria \<lparr> hospital_code := ''SHLV'' \<rparr>) 2) = [7, 7]"
proof -
  have "results (uninterrupted_run example_lib duplicate_id_client
         (no_criteria \<lparr> hospital_code := ''SHLV'' \<rparr>) 2)
     = [\<lparr> r_row = shlv_row 7 ''ACME'', r_result_step = ''STEP_1'' \<rparr>,
        \<lparr> r_row = shlv_row 7 ''UMBRELLA'', r_result_step = ''STEP_1'' \<rparr>]"
    by (simp add: uninterrupted_run_def steps_def step_queries_def initial_state_def duplicate_step_1)
  then show ?thesis
    by (simp add: uninterrupted_search_def slice_to_def get_step_number_def py_int_def
          int_strip_def int_isspace_def parse_unsigned_def digit_value_def result_id_def
          shlv_row_def)
qed

subsection \<open>A step that fails\<close>

text \<open>
  Steps that return nothing, because the store fails or has no row for them, leave the
  results and the identifiers found as they are; only the announcement is added.
\<close>

lemma quiet_steps:
  assumes "\<forall>(i, f) \<in> set xs. \<forall>F. f d F = None \<or> f d F = Some []"
    and "\<not> max_results \<le> int (length (results s))"
  shows "uninterrupted_steps max_results d xs s = s \<lparr> executed := executed s @ map fst xs \<rparr>"
  using assms
proof (induction xs arbitrary: s)
  case Nil
  then show ?case by simp
next
  case (Cons x xs)
  obtain i f where x: "x = (i, f)" by (cases x)
  let ?s1 = "s \<lparr> executed := executed s @ [i] \<rparr>"
  from Cons.prems(1) have rest: "\<forall>(i, f) \<in> set xs. \<forall>F. f d F = None \<or> f d F = Some []"
    by simp
  from Cons.prems(2) have small: "\<not> max_results \<le> int (length (results ?s1))" by simp
  from Cons.prems(1) have "f d (found_admission_ids s) = None \<or> f d (found_admission_ids s) = Some []"
    by (auto simp: x)
  then have "uninterrupted_steps max_results d (x # xs) s = uninterrupted_steps max_results d xs ?s1"
    using Cons.prems(2) by (auto simp: x Let_def)
  also have "\<dots> = ?s1 \<lparr> executed := executed ?s1 @ map fst xs \<rparr>"
    by (rule Cons.IH [OF rest small])
  finally show ?case by (simp add: x)
qed

lemma quiet_step:
  assumes "\<forall>q. q_result_step q \<noteq> t \<longrightarrow> client q = None \<or> client q = Some []"
    and "q_result_step (build d F) \<noteq> t"
  shows "step_of client build d F = None \<or> step_of client build d F = Some []"
proof -
  from assms have "client (build d F) = None \<or> client (build d F) = Some []" by blast
  then show ?thesis by (auto simp: step_of_def execute_query_def)
qed

lemma step_6_fails_step_7_answers:
  assumes fail: "\<forall>q. q_result_step q = ''STEP_6'' \<longrightarrow> client q = None"
    and others: "\<forall>q. q_result_step q \<noteq> ''STEP_7'' \<longrightarrow> client q = None \<or> client q = Some []"
    and seven: "client (step_7_query d {}) = Some [a, b, c]"
    and enough: "3 \<le> max_results"
  shows "results (uninterrupted_steps max_results d (List.enumerate 1 (steps client)) initial_state)
           = map (\<lambda>r. \<lparr> r_row = r, r_result_step = ''STEP_7'' \<rparr>) [a, b, c]"
    and "6 \<in> set (executed (uninterrupted_steps max_results d (List.enumerate 1 (steps client)) initial_state))"
    and "7 \<in> set (executed (uninterrupted_steps max_results d (List.enumerate 1 (steps client)) initial_state))"
proof -
  let ?pre = "[(1, step_of client step_1_query), (2, step_of client step_2_query),
     (3, step_of client step_3_query), (4, step_of client step_4_query),
     (5, step_of client step_5_query), (6, step_of client step_6_query)]"
  let ?post = "[(8, step_of client step_8_query), (9, step_of client step_9_query),
     (10, step_of client step_10_query), (11, step_of client step_11_query),
     (12, step_of client step_12_query), (13, step_of client step_13_query),
     (14, step_of client step_14_query), (15, step_of client step_15_query),
     (16, step_of client step_16_query), (17, step_of client step_17_query)]"
  let ?tagged = "map (\<lambda>r. \<lparr> r_row = r, r_result_step = ''STEP_7'' \<rparr>) [a, b, c]"
  let ?s6 = "initial_state \<lparr> executed := [1, 2, 3, 4, 5, 6] \<rparr>"
  let ?s7 = "\<lparr> results = ?tagged,
     found_admission_ids = {AdmissionId a, AdmissionId b, AdmissionId c},
     executed = [1, 2, 3, 4, 5, 6, 7] \<rparr>"
  have all: "List.enumerate 1 (steps client) = ?pre @ (7, step_of client step_7_query) # ?post"
    by (simp add: steps_def step_queries_def)
  have quiet_pre: "\<forall>(i, f) \<in> set ?pre. \<forall>F. f d F = None \<or> f d F = Some []"
    using quiet_step [OF others] by (simp add: step_query_defs)
  have quiet_post: "\<forall>(i, f) \<in> set ?post. \<forall>F. f d F = None \<or> f d F = Some []"
    using quiet_step [OF others] by (simp add: step_query_defs)
  have zero: "\<not> max_results \<le> int (length (results initial_state))"
    using enough by (simp add: initial_state_def)
  have s6: "uninterrupted_steps max_results d ?pre initial_state = ?s6"
    using quiet_steps [OF quiet_pre zero] by (simp add: initial_state_def)
  have f7: "step_of client step_7_query d {} = Some ?tagged"
    using seven by (simp add: step_of_def execute_query_def step_7_query_def)
  have s7: "uninterrupted_steps max_results d [(7, step_of client step_7_query)] ?s6 = ?s7"
    using enough f7 by (simp add: initial_state_def Let_def insert_commute)
  have "uninterrupted_steps max_results d (List.enumerate 1 (steps client)) initial_state
          = uninterrupted_steps max_results d ?post
              (uninterrupted_steps max_results d [(7, step_of client step_7_query)]
                 (uninterrupted_steps max_results d ?pre initial_state))"
    unfolding all
    using uninterrupted_steps_append [of max_results d ?pre "(7, step_of client step_7_query) # ?post"]
      uninterrupted_steps_append [of max_results d "[(7, step_of client step_7_query)]" ?post]
    by simp
  then have final: "uninterrupted_steps max_results d (List.enumerate 1 (steps client)) initial_state
          = uninterrupted_steps max_results d ?post ?s7"
    by (simp only: s6 s7)
  have "uninterrupted_steps max_results d ?post ?s7 = ?s7
        \<or> uninterrupted_steps max_results d ?post ?s7 = ?s7 \<lparr> executed := executed ?s7 @ map fst ?post \<rparr>"
  proof (cases "max_results \<le> int (length (results ?s7))")
    case True
    then show ?thesis by (simp add: uninterrupted_steps_done)
  next
    case False
    from quiet_steps [OF quiet_post False] show ?thesis by blast
  qed
  then have r: "results (uninterrupted_steps max_results d ?post ?s7) = ?tagged"
    and e: "set (executed ?s7) \<subseteq> set (executed (uninterrupted_steps max_results d ?post ?s7))"
    by auto
  from r show "results (uninterrupted_steps max_results d (List.enumerate 1 (steps client)) initial_state)
           = ?tagged"
    unfolding final .
  from e show "6 \<in> set (executed (uninterrupted_steps max_results d (List.enumerate 1 (steps client)) initial_state))"
    and "7 \<in> set (executed (uninterrupted_steps max_results d (List.enumerate 1 (steps client)) initial_state))"
    unfolding final by auto
qed

text \<open>
  In a search that nothing interrupts, a step whose query fails, or whose step function
  raises, adds nothing to the state and the loop goes on with the remaining steps; when
  the store fails on the query of step 6, answers the query of step 7 with three rows
  and has nothing for any other query, a search for at least three results returns
  exactly those three rows.
\<close>

lemma uninterrupted_failure_contained:
  "(client q = None \<longrightarrow> execute_query client q = [])
   \<and> (\<not> max_results \<le> int (length (results s))
        \<and> client (build d (found_admission_ids s)) = None \<longrightarrow>
      uninterrupted_steps max_results d ((i, step_of client build) # rest) s
        = uninterrupted_steps max_results d rest (s \<lparr> executed := executed s @ [i] \<rparr>))
   \<and> (\<not> max_results \<le> int (length (results s))
        \<and> step_func d (found_admission_ids s) = None \<longrightarrow>
      uninterrupted_steps max_results d ((i, step_func) # rest) s
        = uninterrupted_steps max_results d rest (s \<lparr> executed := executed s @ [i] \<rparr>))
   \<and> ((\<forall>q. q_result_step q = ''STEP_6'' \<longrightarrow> client q = None)
        \<and> (\<forall>q. q_result_step q \<noteq> ''STEP_7'' \<longrightarrow> client q = None \<or> client q = Some [])
        \<and> client (step_7_query (calculate_age_and_los lib input_data) {}) = Some [a, b, c]
        \<and> 3 \<le> max_results \<longrightarrow>
      uninterrupted_search lib client input_data max_results
        = [\<lparr> r_row = a, r_result_step = ''STEP_7'' \<rparr>,
           \<lparr> r_row = b, r_result_step = ''STEP_7'' \<rparr>,
           \<lparr> r_row = c, r_result_step = ''STEP_7'' \<rparr>]
      \<and> 6 \<in> set (executed (uninterrupted_run lib client input_data max_results))
      \<and> 7 \<in> set (executed (uninterrupted_run lib client input_data max_results)))"
proof (intro conjI impI)
  assume "client q = None"
  then show "execute_query client q = []" by (simp add: execute_query_def)
next
  assume "\<not> max_results \<le> int (length (results s))
        \<and> client (build d (found_admission_ids s)) = None"
  then show "uninterrupted_steps max_results d ((i, step_of client build) # rest) s
        = uninterrupted_steps max_results d rest (s \<lparr> executed := executed s @ [i] \<rparr>)"
    by (simp add: step_of_def execute_query_def Let_def)
next
  assume "\<not> max_results \<le> int (length (results s))
        \<and> step_func d (found_admission_ids s) = None"
  then show "uninterrupted_steps max_results d ((i, step_func) # rest) s
        = uninterrupted_steps max_results d rest (s \<lparr> executed := executed s @ [i] \<rparr>)"
    by (simp add: Let_def)
next
  assume a: "(\<forall>q. q_result_step q = ''STEP_6'' \<longrightarrow> client q = None)
        \<and> (\<forall>q. q_result_step q \<noteq> ''STEP_7'' \<longrightarrow> client q = None \<or> client q = Some [])
        \<and> client (step_7_query (calculate_age_and_los lib input_data) {}) = Some [a, b, c]
        \<and> 3 \<le> max_results"
  then have fail: "\<forall>q. q_result_step q = ''STEP_6'' \<longrightarrow> client q = None"
    and others: "\<forall>q. q_result_step q \<noteq> ''STEP_7'' \<longrightarrow> client q = None \<or> client q = Some []"
    and seven: "client (step_7_query (calculate_age_and_los lib input_data) {}) = Some [a, b, c]"
    and enough: "3 \<le> max_results"
    by blast+
  note scenario = step_6_fails_step_7_answers [OF fail others seven enough]
  let ?tagged = "[\<lparr> r_row = a, r_result_step = ''STEP_7'' \<rparr>,
           \<lparr> r_row = b, r_result_step = ''STEP_7'' \<rparr>,
           \<lparr> r_row = c, r_result_step = ''STEP_7'' \<rparr>]"
  have acc: "results (uninterrupted_run lib client input_data max_results) = ?tagged"
    using scenario(1) by (simp add: uninterrupted_run_def)
  have cut: "slice_to max_results ?tagged = ?tagged"
    using enough by (simp add: slice_to_def)
  have "sorted (map get_step_number ?tagged)"
    by (simp add: get_step_number_def)
  then have "sort_key get_step_number ?tagged = ?tagged"
    by (rule sort_key_id_if_sorted)
  then show "uninterrupted_search lib client input_data max_results = ?tagged"
    by (simp only: uninterrupted_search_def acc cut)
  from scenario(2) show "6 \<in> set (executed (uninterrupted_run lib client input_data max_results))"
    by (simp add: uninterrupted_run_def)
  from scenario(3) show "7 \<in> set (executed (uninterrupted_run lib client input_data max_results))"
    by (simp add: uninterrupted_run_def)
qed

subsection \<open>Searches in one process\<close>

text \<open>
  The loop returns at once when the shared list has enough results, and it waits for the
  answer to the query of the next step otherwise. Answers that arrive for a call that has
  returned change nothing.
\<close>

lemma loop_from_enough:
  "max_results \<le> int (length (results self)) \<Longrightarrow>
     loop_from d max_results later announced self
       = \<lparr> co_processed_data = d, co_max_results = max_results, co_later_steps = [],
           co_executed = announced, co_status = Returned (final_results max_results self) \<rparr>"
  by (simp add: loop_from_def split: list.splits)

lemma loop_from_awaiting:
  "\<not> max_results \<le> int (length (results self)) \<Longrightarrow>
     loop_from d max_results ((i, build) # rest) announced self
       = \<lparr> co_processed_data = d, co_max_results = max_results, co_later_steps = rest,
           co_executed = announced @ [i],
           co_status = Awaiting (build d (found_admission_ids self)) \<rparr>"
  by (simp add: loop_from_def)

lemma returned_ignores_answers:
  assumes "calls p n = Some co" "co_status co = Returned rs"
  shows "run_events lib client (replicate k (Answer n)) p = p"
  using assms by (induction k) (simp_all add: run_events_def)

lemma service_of_with_executed: "service_of (with_executed self announced) = self"
  by (simp add: service_of_def with_executed_def)

lemma executed_with_executed: "executed (with_executed self announced) = announced"
  by (simp add: with_executed_def)

text \<open>
  When the answers to the queries of one search arrive one after the other and nothing
  else happens in between, the service and the search go through the states of the
  function \<open>uninterrupted_steps\<close>, whatever the other calls in the process are.
\<close>

lemma answers_run:
  assumes "calls p n = Some (loop_from d max_results later announced (singleton p))"
  shows "run_events lib client (replicate k (Answer n)) p
         = p \<lparr> singleton :=
                 service_of (uninterrupted_steps max_results d
                    (map (\<lambda>(i, build). (i, step_of client build)) (take k later))
                    (with_executed (singleton p) announced)),
               calls := (calls p)
                 (n \<mapsto> loop_from d max_results (drop k later)
                    (executed (uninterrupted_steps max_results d
                       (map (\<lambda>(i, build). (i, step_of client build)) (take k later))
                       (with_executed (singleton p) announced)))
                    (service_of (uninterrupted_steps max_results d
                       (map (\<lambda>(i, build). (i, step_of client build)) (take k later))
                       (with_executed (singleton p) announced)))) \<rparr>"
  using assms
proof (induction k arbitrary: p later announced)
  case 0
  then have "(calls p)(n \<mapsto> loop_from d max_results later announced (singleton p)) = calls p"
    by (intro fun_upd_idem) simp
  then show ?case
    by (simp add: run_events_def service_of_with_executed executed_with_executed)
next
  case (Suc k)
  show ?case
  proof (cases "later = [] \<or> max_results \<le> int (length (results (singleton p)))")
    case True
    then have co: "loop_from d max_results later announced (singleton p)
       = \<lparr> co_processed_data = d, co_max_results = max_results, co_later_steps = [],
           co_executed = announced,
           co_status = Returned (final_results max_results (singleton p)) \<rparr>"
      by (auto simp: loop_from_def split: list.splits)
    have st: "uninterrupted_steps max_results d
                    (map (\<lambda>(i, build). (i, step_of client build)) (take (Suc k) later))
                    (with_executed (singleton p) announced)
              = with_executed (singleton p) announced"
      using True by (auto simp: uninterrupted_steps_done with_executed_def)
    have same: "loop_from d max_results (drop (Suc k) later) announced (singleton p)
         = loop_from d max_results later announced (singleton p)"
      using True by (auto simp: loop_from_def split: list.splits)
    have "run_events lib client (replicate (Suc k) (Answer n)) p = p"
    proof (rule returned_ignores_answers)
      show "calls p n = Some (loop_from d max_results later announced (singleton p))"
        by (rule Suc.prems)
      show "co_status (loop_from d max_results later announced (singleton p))
              = Returned (final_results max_results (singleton p))"
        by (simp add: co)
    qed
    then show ?thesis
      using Suc.prems
      by (simp add: st same service_of_with_executed executed_with_executed fun_upd_idem)
  next
    case False
    then obtain i build rest where later: "later = (i, build) # rest" 
      and small: "\<not> max_results \<le> int (length (results (singleton p)))"
      by (cases later) auto
    let ?q = "build d (found_admission_ids (singleton p))"
    let ?co = "loop_from d max_results later announced (singleton p)"
    have co: "?co = \<lparr> co_processed_data = d, co_max_results = max_results, co_later_steps = rest,
           co_executed = announced @ [i], co_status = Awaiting ?q \<rparr>"
      unfolding later by (rule loop_from_awaiting [OF small])
    let ?rs = "execute_query client ?q"
    let ?self' = "if ?rs \<noteq> [] then
                     (singleton p) \<lparr> results := results (singleton p) @ ?rs,
                            found_admission_ids :=
                              found_admission_ids (singleton p)
                                \<union> (\<lambda>r. AdmissionId (r_row r)) ` set ?rs \<rparr>
                   else singleton p"
    let ?p1 = "p \<lparr> singleton := ?self',
                   calls := (calls p)(n \<mapsto> loop_from d max_results rest (announced @ [i]) ?self') \<rparr>"
    have f: "fire lib client p (Answer n) = ?p1"
      using Suc.prems by (simp add: co resume_search_def Let_def)
    have c1: "calls ?p1 n = Some (loop_from d max_results rest (announced @ [i]) (singleton ?p1))"
      by simp
    have st: "uninterrupted_steps max_results d
                 (map (\<lambda>(i, build). (i, step_of client build)) (take (Suc k) later))
                 (with_executed (singleton p) announced)
            = uninterrupted_steps max_results d
                 (map (\<lambda>(i, build). (i, step_of client build)) (take k rest))
                 (with_executed (singleton ?p1) (announced @ [i]))"
      using small by (simp add: later with_executed_def step_of_def Let_def)
    let ?S = "uninterrupted_steps max_results d
                 (map (\<lambda>(i, build). (i, step_of client build)) (take k rest))
                 (with_executed (singleton ?p1) (announced @ [i]))"
    have "run_events lib client (replicate (Suc k) (Answer n)) p
            = run_events lib client (replicate k (Answer n)) ?p1"
      by (simp add: run_events_def f del: fire.simps)
    also have "\<dots> = ?p1 \<lparr> singleton := service_of ?S,
                 calls := (calls ?p1)
                   (n \<mapsto> loop_from d max_results (drop k rest) (executed ?S) (service_of ?S)) \<rparr>"
      by (rule Suc.IH [OF c1])
    also have "\<dots> = p \<lparr> singleton := service_of ?S,
                 calls := (calls p)
                   (n \<mapsto> loop_from d max_results (drop k rest) (executed ?S) (service_of ?S)) \<rparr>"
      by simp
    finally have fin: "run_events lib client (replicate (Suc k) (Answer n)) p
       = p \<lparr> singleton := service_of ?S,
                 calls := (calls p)
                   (n \<mapsto> loop_from d max_results (drop k rest) (executed ?S) (service_of ?S)) \<rparr>" .
    have dr: "drop (Suc k) later = drop k rest" by (simp add: later)
    show ?thesis
      unfolding st dr by (rule fin)
  qed
qed

lemma enumerate_map_snd:
  "map (\<lambda>(i, x). (i, f x)) (List.enumerate n xs) = List.enumerate n (map f xs)"
  by (induction xs arbitrary: n) simp_all

lemma enumerated_step_queries:
  "map (\<lambda>(i, build). (i, step_of client build)) (take k (List.enumerate 1 step_queries))
     = take k (List.enumerate 1 (steps client))"
  by (simp only: take_map [symmetric] enumerate_map_snd steps_def)

lemma reset_service:
  "(self :: service) \<lparr> results := [], found_admission_ids := {} \<rparr>
     = \<lparr> results = [], found_admission_ids = {} \<rparr>"
  by (cases self) simp

text \<open>
  A request resets the two fields of the service, so the search that it starts does not
  depend on what the process did before; after the answers to its first \<open>k\<close> queries
  it has done the first \<open>k\<close> steps of the uninterrupted search, and after seventeen
  answers it has returned the outcome of the uninterrupted search.
\<close>

lemma request_then_answers:
  "run_events lib client (Request n input_data max_results # replicate k (Answer n)) p
     = p \<lparr> singleton := service_of (uninterrupted_prefix lib client input_data max_results k),
           calls := (calls p)
             (n \<mapsto> loop_from (calculate_age_and_los lib input_data) max_results
                    (drop k (List.enumerate 1 step_queries))
                    (executed (uninterrupted_prefix lib client input_data max_results k))
                    (service_of (uninterrupted_prefix lib client input_data max_results k))) \<rparr>"
proof -
  let ?d = "calculate_age_and_los lib input_data"
  let ?empty = "\<lparr> results = [], found_admission_ids = {} \<rparr>"
  let ?p0 = "p \<lparr> singleton := ?empty,
                 calls := (calls p)
                   (n \<mapsto> loop_from ?d max_results (List.enumerate 1 step_queries) [] ?empty) \<rparr>"
  have f: "fire lib client p (Request n input_data max_results) = ?p0"
    by (simp add: search_similar_admissions_def Let_def reset_service)
  have c: "calls ?p0 n
     = Some (loop_from ?d max_results (List.enumerate 1 step_queries) [] (singleton ?p0))"
    by simp
  have w: "with_executed (singleton ?p0) [] = initial_state"
    by (simp add: with_executed_def initial_state_def)
  have "run_events lib client (Request n input_data max_results # replicate k (Answer n)) p
          = run_events lib client (replicate k (Answer n)) ?p0"
    by (simp add: run_events_def f del: fire.simps)
  also note answers_run [OF c, of lib client k]
  finally show ?thesis
    unfolding w enumerated_step_queries uninterrupted_prefix_def [symmetric] by simp
qed

lemma uninterrupted_prefix_all:
  "uninterrupted_prefix lib client input_data max_results 17
     = uninterrupted_run lib client input_data max_results"
  by (simp add: uninterrupted_prefix_def uninterrupted_run_def steps_def step_queries_def)

lemma final_results_service_of:
  "final_results max_results (service_of s)
     = sort_key get_step_number (slice_to max_results (results s))"
  by (simp add: final_results_def service_of_def)

lemma alone_run:
  "run_events lib client (alone n input_data max_results) p
     = p \<lparr> singleton := service_of (uninterrupted_run lib client input_data max_results),
           calls := (calls p)
             (n \<mapsto> \<lparr> co_processed_data = calculate_age_and_los lib input_data,
                     co_max_results = max_results, co_later_steps = [],
                     co_executed = executed (uninterrupted_run lib client input_data max_results),
                     co_status = Returned
                       (uninterrupted_search lib client input_data max_results) \<rparr>) \<rparr>"
proof -
  have d: "drop 17 (List.enumerate 1 step_queries) = []"
    by (simp add: step_queries_def)
  show ?thesis
    unfolding alone_def request_then_answers d uninterrupted_prefix_all
    by (simp add: loop_from_def final_results_service_of uninterrupted_search_def)
qed

lemma alone_outcome:
  "outcome (run_events lib client (alone n input_data max_results) p) n
     = Some (uninterrupted_search lib client input_data max_results)"
  by (simp add: alone_run outcome_def)

lemma alone_executed:
  "executed_by (run_events lib client (alone n input_data max_results) p) n
     = executed (uninterrupted_run lib client input_data max_results)"
  by (simp add: alone_run executed_by_def)

lemma alone_results:
  "results (singleton (run_events lib client (alone n input_data max_results) p))
     = results (uninterrupted_run lib client input_data max_results)"
  by (simp add: alone_run service_of_def)

text \<open>The answers of the example stores to the queries of the searches below.\<close>

lemmas step_number_defs = get_step_number_def py_int_def int_strip_def int_isspace_def
  parse_unsigned_def digit_value_def

lemma shlv_answer_1:
  "execute_query (table_client shlv_table)
     (step_1_query (calculate_age_and_los example_lib
        (no_criteria \<lparr> hospital_code := ''SHLV'' \<rparr>)) {})
   = map (\<lambda>r. \<lparr> r_row = r, r_result_step = ''STEP_1'' \<rparr>) shlv_table"
  using shlv_step_1 by (simp add: step_of_def)

lemma shlv_rows_answer_1:
  "execute_query (table_client shlv_table)
     (step_1_query (calculate_age_and_los example_lib
        (no_criteria \<lparr> hospital_code := ''SHLV'' \<rparr>)) {})
   = [\<lparr> r_row = shlv_row 1 ''ACME'', r_result_step = ''STEP_1'' \<rparr>,
      \<lparr> r_row = shlv_row 2 ''ACME'', r_result_step = ''STEP_1'' \<rparr>,
      \<lparr> r_row = shlv_row 3 ''UMBRELLA'', r_result_step = ''STEP_1'' \<rparr>]"
  unfolding shlv_answer_1 by (simp add: shlv_table_def)

lemma shlv_alone:
  "results (singleton (run_events example_lib (table_client shlv_table)
      (alone 1 (no_criteria \<lparr> hospital_code := ''SHLV'' \<rparr>) 2) idle_process))
   = [\<lparr> r_row = shlv_row 1 ''ACME'', r_result_step = ''STEP_1'' \<rparr>,
      \<lparr> r_row = shlv_row 2 ''ACME'', r_result_step = ''STEP_1'' \<rparr>,
      \<lparr> r_row = shlv_row 3 ''UMBRELLA'', r_result_step = ''STEP_1'' \<rparr>]"
  unfolding alone_results shlv_search_state by (simp add: shlv_table_def)

lemma mrccc_answer_1:
  "execute_query (table_client shlv_table)
     (step_1_query (calculate_age_and_los example_lib
        (no_criteria \<lparr> hospital_code := ''MRCCC'' \<rparr>)) {}) = []"
  by (simp add: execute_query_def table_client_def step_1_query_def candidate_def
        build_conditions_def List.map_filter_def build_condition_def strip_def py_isspace_def
        equals_value_def los_text_def icd_parts normalize_defs shlv_table_def shlv_row_def
        blank_admission_def)

lemma doctors_answer_1:
  "execute_query (table_client doctors_table)
     (step_1_query (calculate_age_and_los example_lib
        (no_criteria \<lparr> hospital_code := ''SHLV'', anesthesia_doctor := ''DrA'' \<rparr>)) {})
   = [\<lparr> r_row = doctor_row 1 ''DrA'', r_result_step = ''STEP_1'' \<rparr>,
      \<lparr> r_row = doctor_row 2 ''DrA'', r_result_step = ''STEP_1'' \<rparr>]"
  by (simp add: execute_query_def table_client_def step_1_query_def candidate_def
        build_conditions_def List.map_filter_def build_condition_def strip_def py_isspace_def
        equals_value_def los_text_def icd_parts normalize_defs doctors_table_def doctor_row_def
        blank_admission_def)

lemma doctors_answer_2:
  "execute_query (table_client doctors_table)
     (step_2_query (calculate_age_and_los example_lib
        (no_criteria \<lparr> hospital_code := ''SHLV'', anesthesia_doctor := ''DrA'' \<rparr>)) {1, 2})
   = [\<lparr> r_row = doctor_row 3 ''DrB'', r_result_step = ''STEP_2'' \<rparr>,
      \<lparr> r_row = doctor_row 4 ''DrB'', r_result_step = ''STEP_2'' \<rparr>]"
  by (simp add: execute_query_def table_client_def step_2_query_def candidate_def
        get_exclusion_clause_def equals_value_def los_text_def icd_parts normalize_defs
        doctors_table_def doctor_row_def blank_admission_def)

lemma result_steps:
  "q_result_step (step_1_query d F) = ''STEP_1''"
  "q_result_step (step_2_query d F) = ''STEP_2''"
  "q_result_step (step_3_query d F) = ''STEP_3''"
  "q_result_step (step_4_query d F) = ''STEP_4''"
  "q_result_step (step_5_query d F) = ''STEP_5''"
  "q_result_step (step_6_query d F) = ''STEP_6''"
  "q_result_step (step_7_query d F) = ''STEP_7''"
  "q_result_step (step_8_query d F) = ''STEP_8''"
  "q_result_step (step_9_query d F) = ''STEP_9''"
  "q_result_step (step_10_query d F) = ''STEP_10''"
  "q_result_step (step_11_query d F) = ''STEP_11''"
  "q_result_step (step_12_query d F) = ''STEP_12''"
  "q_result_step (step_13_query d F) = ''STEP_13''"
  "q_result_step (step_14_query d F) = ''STEP_14''"
  "q_result_step (step_15_query d F) = ''STEP_15''"
  "q_result_step (step_16_query d F) = ''STEP_16''"
  "q_result_step (step_17_query d F) = ''STEP_17''"
  by (simp_all add: step_query_defs)

text \<open>
  Claim C2, as the code has it. At the head of every iteration the loop reads the list of
  results of the shared service, and when that list has at least \<^verbatim>\<open>max_results\<close>
  elements at that moment the search returns without announcing or querying a further
  step. When nothing else happens in the process between the request and the answers to
  its first \<open>k\<close> queries, and the results are then at least \<^verbatim>\<open>max_results\<close>, the
  search has returned: the steps it announced (each is one query to the store) are
  numbered from 1 to \<open>k\<close> and are at most \<open>k\<close>, and no later answer makes it go on.
\<close>

theorem no_step_after_enough_results:
  "(max_results \<le> int (length (results self)) \<longrightarrow>
      co_status (loop_from d max_results later announced self)
        = Returned (final_results max_results self)
      \<and> co_executed (loop_from d max_results later announced self) = announced)
   \<and> (max_results \<le> int (length (results (singleton
          (run_events lib client (Request n input_data max_results # replicate k (Answer n)) p))))
      \<longrightarrow>
        outcome (run_events lib client
                   (Request n input_data max_results # replicate k (Answer n)) p) n
          = Some (final_results max_results (singleton
              (run_events lib client
                 (Request n input_data max_results # replicate k (Answer n)) p)))
        \<and> (\<forall>i \<in> set (executed_by (run_events lib client
                   (Request n input_data max_results # replicate k (Answer n)) p) n).
              1 \<le> i \<and> i \<le> k)
        \<and> length (executed_by (run_events lib client
                   (Request n input_data max_results # replicate k (Answer n)) p) n) \<le> k
        \<and> run_events lib client (replicate j (Answer n))
              (run_events lib client
                 (Request n input_data max_results # replicate k (Answer n)) p)
            = run_events lib client
                (Request n input_data max_results # replicate k (Answer n)) p)"
proof (intro conjI impI)
  assume "max_results \<le> int (length (results self))"
  then show "co_status (loop_from d max_results later announced self)
        = Returned (final_results max_results self)"
    and "co_executed (loop_from d max_results later announced self) = announced"
    by (simp_all add: loop_from_enough)
next
  let ?P = "uninterrupted_prefix lib client input_data max_results k"
  let ?run = "run_events lib client (Request n input_data max_results # replicate k (Answer n)) p"
  let ?co = "\<lparr> co_processed_data = calculate_age_and_los lib input_data,
     co_max_results = max_results, co_later_steps = [], co_executed = executed ?P,
     co_status = Returned (final_results max_results (service_of ?P)) \<rparr>"
  assume "max_results \<le> int (length (results (singleton ?run)))"
  then have enough: "max_results \<le> int (length (results (service_of ?P)))"
    by (simp add: request_then_answers)
  have run: "?run = p \<lparr> singleton := service_of ?P, calls := (calls p)(n \<mapsto> ?co) \<rparr>"
    unfolding request_then_answers loop_from_enough [OF enough] ..
  show "outcome ?run n = Some (final_results max_results (singleton ?run))"
    unfolding run by (simp add: outcome_def)
  have b: "set (executed ?P) \<subseteq> fst ` set (take k (List.enumerate 1 (steps client)))"
    and c: "length (executed ?P) \<le> length (take k (List.enumerate 1 (steps client)))"
    using executed_bounds [of max_results "calculate_age_and_los lib input_data"
        "take k (List.enumerate 1 (steps client))" initial_state]
    by (simp_all add: uninterrupted_prefix_def initial_state_def)
  have e: "executed_by ?run n = executed ?P"
    unfolding run by (simp add: executed_by_def)
  from b show "\<forall>i \<in> set (executed_by ?run n). 1 \<le> i \<and> i \<le> k"
    unfolding e using prefix_step_numbers by blast
  from c show "length (executed_by ?run n) \<le> k"
    unfolding e by simp
  show "run_events lib client (replicate j (Answer n)) ?run = ?run"
  proof (rule returned_ignores_answers)
    show "calls ?run n = Some ?co" unfolding run by simp
    show "co_status ?co = Returned (final_results max_results (service_of ?P))" by simp
  qed
qed

theorem no_step_after_enough_results_witness:
  "2 \<le> int (length (results (singleton (run_events example_lib (table_client shlv_table)
        (Request 1 (no_criteria \<lparr> hospital_code := ''SHLV'' \<rparr>) 2 # replicate 1 (Answer 1))
        idle_process))))
   \<and> length (executed_by (run_events example_lib (table_client shlv_table)
        (Request 1 (no_criteria \<lparr> hospital_code := ''SHLV'' \<rparr>) 2 # replicate 1 (Answer 1))
        idle_process) 1) \<le> 1
   \<and> run_events example_lib (table_client shlv_table) (replicate 16 (Answer 1))
        (run_events example_lib (table_client shlv_table)
          (Request 1 (no_criteria \<lparr> hospital_code := ''SHLV'' \<rparr>) 2 # replicate 1 (Answer 1))
          idle_process)
      = run_events example_lib (table_client shlv_table)
          (Request 1 (no_criteria \<lparr> hospital_code := ''SHLV'' \<rparr>) 2 # replicate 1 (Answer 1))
          idle_process"
proof -
  have h: "2 \<le> int (length (results (singleton (run_events example_lib (table_client shlv_table)
        (Request 1 (no_criteria \<lparr> hospital_code := ''SHLV'' \<rparr>) 2 # replicate 1 (Answer 1))
        idle_process))))"
    unfolding request_then_answers
    by (simp only: process.simps service_of_def service.simps shlv_prefix_1)
       (simp add: shlv_table_def)
  from h no_step_after_enough_results [THEN conjunct2, rule_format, OF h, of 16]
  show ?thesis by blast
qed

text \<open>
  For every search the claim fails, because the list that the loop reads belongs to the
  one service of the process. The store holds four rows of the hospital; the first
  search, for three results, gets rows 1 and 2 from step 1 and is waiting for the answer
  to its query of step 2, which excludes them, when a second request arrives and resets
  the list. The answer to step 2 brings rows 3 and 4: the steps of the first search have
  returned four distinct rows, the list holds two, and the search announces step 3 and
  waits for its answer.
\<close>

theorem interrupted_search_continues_counterexample:
  "map result_id (execute_query (table_client doctors_table)
     (step_1_query (calculate_age_and_los example_lib
        (no_criteria \<lparr> hospital_code := ''SHLV'', anesthesia_doctor := ''DrA'' \<rparr>)) {})) = [1, 2]
   \<and> map result_id (execute_query (table_client doctors_table)
     (step_2_query (calculate_age_and_los example_lib
        (no_criteria \<lparr> hospital_code := ''SHLV'', anesthesia_doctor := ''DrA'' \<rparr>)) {1, 2})) = [3, 4]
   \<and> map_option co_status (calls (run_events example_lib (table_client doctors_table)
        [Request 1 (no_criteria \<lparr> hospital_code := ''SHLV'', anesthesia_doctor := ''DrA'' \<rparr>) 3,
         Answer 1] idle_process) 1)
      = Some (Awaiting (step_2_query (calculate_age_and_los example_lib
          (no_criteria \<lparr> hospital_code := ''SHLV'', anesthesia_doctor := ''DrA'' \<rparr>)) {1, 2}))
   \<and> executed_by (run_events example_lib (table_client doctors_table)
        [Request 1 (no_criteria \<lparr> hospital_code := ''SHLV'', anesthesia_doctor := ''DrA'' \<rparr>) 3,
         Answer 1,
         Request 2 (no_criteria \<lparr> hospital_code := ''SHLV'', anesthesia_doctor := ''DrA'' \<rparr>) 3,
         Answer 1] idle_process) 1 = [1, 2, 3]
   \<and> outcome (run_events example_lib (table_client doctors_table)
        [Request 1 (no_criteria \<lparr> hospital_code := ''SHLV'', anesthesia_doctor := ''DrA'' \<rparr>) 3,
         Answer 1,
         Request 2 (no_criteria \<lparr> hospital_code := ''SHLV'', anesthesia_doctor := ''DrA'' \<rparr>) 3,
         Answer 1] idle_process) 1 = None"
  by (simp add: doctors_answer_1 doctors_answer_2 result_id_def doctor_row_def
        blank_admission_def run_events_def search_similar_admissions_def reset_service
        loop_from_def resume_search_def idle_process_def step_queries_def executed_by_def
        outcome_def insert_commute)

text \<open>
  Claim C3, as the code has it. What a search returns is the list of results of the shared
  service at that moment, cut to \<^verbatim>\<open>max_results\<close> and sorted by step number with a
  stable sort: the step numbers ascend, and the results of one step number keep the
  order they have in that list. When nothing else happens in the process between the
  request and its answers, that list is what the steps of this search returned, in
  their order: the outcome is its first \<^verbatim>\<open>max_results\<close> elements sorted by step
  number, and every element carries the literal of a step from 1 to 17 that this search
  announced and has the number of that step as its sort key.
\<close>

theorem outcome_sorted_by_step:
  "(co_status (loop_from d max_results later announced self) = Returned out \<longrightarrow>
       out = sort_key get_step_number (slice_to max_results (results self))
     \<and> sorted (map get_step_number out)
     \<and> (\<forall>k. filter (\<lambda>r. get_step_number r = k) out
            = filter (\<lambda>r. get_step_number r = k) (slice_to max_results (results self))))
   \<and> outcome (run_events lib client (alone n input_data max_results) p) n
       = Some (sort_key get_step_number (take (nat max_results)
           (results (singleton (run_events lib client (alone n input_data max_results) p)))))
   \<and> (\<forall>r \<in> set (results (singleton
                 (run_events lib client (alone n input_data max_results) p))).
         \<exists>i \<in> set (executed_by (run_events lib client (alone n input_data max_results) p) n).
            i \<in> {1..17} \<and> r_result_step r = step_tag i \<and> get_step_number r = int i)"
proof (intro conjI impI)
  assume "co_status (loop_from d max_results later announced self) = Returned out"
  then have out: "out = sort_key get_step_number (slice_to max_results (results self))"
    by (auto simp: loop_from_def final_results_def split: list.splits if_splits)
  then show "out = sort_key get_step_number (slice_to max_results (results self))" .
  show "sorted (map get_step_number out)"
    unfolding out by simp
  show "\<forall>k. filter (\<lambda>r. get_step_number r = k) out
            = filter (\<lambda>r. get_step_number r = k) (slice_to max_results (results self))"
    unfolding out by (simp add: sort_key_stable)
next
  show "outcome (run_events lib client (alone n input_data max_results) p) n
       = Some (sort_key get_step_number (take (nat max_results)
           (results (singleton (run_events lib client (alone n input_data max_results) p)))))"
    by (simp only: alone_outcome alone_results uninterrupted_search_def slice_is_take)
next
  show "\<forall>r \<in> set (results (singleton
                 (run_events lib client (alone n input_data max_results) p))).
         \<exists>i \<in> set (executed_by (run_events lib client (alone n input_data max_results) p) n).
            i \<in> {1..17} \<and> r_result_step r = step_tag i \<and> get_step_number r = int i"
    unfolding alone_results alone_executed by (rule results_tagged)
qed

theorem outcome_sorted_by_step_witness:
  "outcome (run_events example_lib (table_client shlv_table)
      (alone 1 (no_criteria \<lparr> hospital_code := ''SHLV'' \<rparr>) 2) idle_process) 1
     = Some [\<lparr> r_row = shlv_row 1 ''ACME'', r_result_step = ''STEP_1'' \<rparr>,
             \<lparr> r_row = shlv_row 2 ''ACME'', r_result_step = ''STEP_1'' \<rparr>]
   \<and> 1 \<le> get_step_number \<lparr> r_row = shlv_row 1 ''ACME'', r_result_step = ''STEP_1'' \<rparr>
   \<and> get_step_number \<lparr> r_row = shlv_row 1 ''ACME'', r_result_step = ''STEP_1'' \<rparr> \<le> 17"
proof -
  let ?run = "run_events example_lib (table_client shlv_table)
      (alone 1 (no_criteria \<lparr> hospital_code := ''SHLV'' \<rparr>) 2) idle_process"
  let ?r = "\<lparr> r_row = shlv_row 1 ''ACME'', r_result_step = ''STEP_1'' \<rparr>"
  note c3 = outcome_sorted_by_step [where lib = example_lib and client = "table_client shlv_table"
      and n = 1 and input_data = "no_criteria \<lparr> hospital_code := ''SHLV'' \<rparr>"
      and max_results = 2 and p = idle_process]
  from c3 have "outcome ?run 1
      = Some (sort_key get_step_number (take (nat 2) (results (singleton ?run))))"
    by blast
  then have out: "outcome ?run 1 = Some [?r,
       \<lparr> r_row = shlv_row 2 ''ACME'', r_result_step = ''STEP_1'' \<rparr>]"
    unfolding shlv_alone by (simp add: step_number_defs)
  have mem: "?r \<in> set (results (singleton ?run))"
    unfolding shlv_alone by simp
  from c3 have "\<forall>r \<in> set (results (singleton ?run)). \<exists>i \<in> set (executed_by ?run 1).
            i \<in> {1..17} \<and> r_result_step r = step_tag i \<and> get_step_number r = int i"
    by blast
  with mem obtain i :: nat where "i \<in> {1..17}" "get_step_number ?r = int i" by blast
  then have "1 \<le> get_step_number ?r \<and> get_step_number ?r \<le> 17" by simp
  with out show ?thesis by simp
qed

text \<open>
  For every search the claim fails: the list that is cut belongs to the one service of
  the process. A search for the hospital \<^verbatim>\<open>MRCCC\<close> is waiting for the answer to its
  query of step 1 when a search for the hospital \<^verbatim>\<open>SHLV\<close> starts, gets three rows
  from step 1 and returns. The store has no row for the first search, whose only step
  returns nothing; it finds three results in the list and returns the three rows of the
  other search.
\<close>

theorem outcome_of_another_search_counterexample:
  "execute_query (table_client shlv_table)
     (step_1_query (calculate_age_and_los example_lib
        (no_criteria \<lparr> hospital_code := ''MRCCC'' \<rparr>)) {}) = []
   \<and> executed_by (run_events example_lib (table_client shlv_table)
        [Request 2 (no_criteria \<lparr> hospital_code := ''MRCCC'' \<rparr>) 3,
         Request 1 (no_criteria \<lparr> hospital_code := ''SHLV'' \<rparr>) 3,
         Answer 1, Answer 2] idle_process) 2 = [1]
   \<and> outcome (run_events example_lib (table_client shlv_table)
        [Request 2 (no_criteria \<lparr> hospital_code := ''MRCCC'' \<rparr>) 3,
         Request 1 (no_criteria \<lparr> hospital_code := ''SHLV'' \<rparr>) 3,
         Answer 1, Answer 2] idle_process) 2
      = Some [\<lparr> r_row = shlv_row 1 ''ACME'', r_result_step = ''STEP_1'' \<rparr>,
              \<lparr> r_row = shlv_row 2 ''ACME'', r_result_step = ''STEP_1'' \<rparr>,
              \<lparr> r_row = shlv_row 3 ''UMBRELLA'', r_result_step = ''STEP_1'' \<rparr>]"
  by (simp add: shlv_rows_answer_1 mrccc_answer_1 run_events_def
        search_similar_admissions_def reset_service loop_from_def resume_search_def
        idle_process_def step_queries_def executed_by_def outcome_def final_results_def
        slice_to_def step_number_defs Let_def)

text \<open>
  Claim C1, as the code has it. When nothing else happens in the process between the
  request and its answers, and every answer of the store satisfies the \<^verbatim>\<open>WHERE\<close>
  clause of its query and holds no identifier twice, the search returns an outcome that
  holds no identifier twice, for every input and every \<^verbatim>\<open>max_results\<close>. Each of the
  steps 2 to 17 has the clause \<^verbatim>\<open>AdmissionId NOT IN (...)\<close> over the identifiers
  found when the query is built, so none of its candidates has one of them.
\<close>

theorem no_duplicate_identifier:
  "(honours_queries client \<longrightarrow>
      (\<exists>out. outcome (run_events lib client (alone n input_data max_results) p) n = Some out
             \<and> distinct (map result_id out)))
   \<and> (\<forall>i \<in> {2..17}. F \<noteq> {} \<longrightarrow>
        NotIn F \<in> set (q_where (step_query i d F))
        \<and> (\<forall>r. candidate (step_query i d F) r \<longrightarrow> AdmissionId r \<notin> F))"
proof (intro conjI impI ballI allI)
  assume "honours_queries client"
  then show "\<exists>out. outcome (run_events lib client (alone n input_data max_results) p) n = Some out
             \<and> distinct (map result_id out)"
    by (simp add: alone_outcome uninterrupted_outcome_distinct)
next
  fix i :: nat assume "i \<in> {2..17}" and "F \<noteq> {}"
  then show "NotIn F \<in> set (q_where (step_query i d F))"
    by (rule later_steps_exclude_found(1))
next
  fix i :: nat and r assume "i \<in> {2..17}" and "candidate (step_query i d F) r"
  then show "AdmissionId r \<notin> F"
    by (rule later_steps_exclude_found(2))
qed

theorem no_duplicate_identifier_witness:
  "(\<exists>out. outcome (run_events example_lib (table_client shlv_table)
        (alone 1 (no_criteria \<lparr> hospital_code := ''SHLV'' \<rparr>) 2) idle_process) 1 = Some out
      \<and> distinct (map result_id out))
   \<and> NotIn {1} \<in> set (q_where (step_query 2
         (calculate_age_and_los example_lib (no_criteria \<lparr> hospital_code := ''SHLV'' \<rparr>)) {1}))"
proof -
  have h: "honours_queries (table_client shlv_table)"
    by (rule table_client_honours) (simp add: shlv_table_def shlv_row_def)
  have i: "(2::nat) \<in> {2..17}" by simp
  have F: "{1::int} \<noteq> {}" by simp
  note c1 = no_duplicate_identifier [where client = "table_client shlv_table"
      and lib = example_lib and n = 1
      and input_data = "no_criteria \<lparr> hospital_code := ''SHLV'' \<rparr>" and max_results = 2
      and p = idle_process and F = "{1}"
      and d = "calculate_age_and_los example_lib (no_criteria \<lparr> hospital_code := ''SHLV'' \<rparr>)"]
  from c1 [THEN conjunct1, rule_format, OF h] c1 [THEN conjunct2, rule_format, OF i F]
  show ?thesis by blast
qed

text \<open>
  Without the condition on the store the claim fails: the search removes identifiers
  across steps only, so when the table holds two rows of one admission that both satisfy
  the query of step 1, the outcome holds that identifier twice. Without the condition on
  the process it fails too, with a store that honours its queries: two searches for five
  results of the same hospital start one after the other, each gets the three rows of
  the hospital from its query of step 1, which excludes nothing, and the second returns
  the first five of the six results in the list.
\<close>

theorem duplicate_identifier_counterexample:
  "candidate (step_1_query
       (calculate_age_and_los example_lib (no_criteria \<lparr> hospital_code := ''SHLV'' \<rparr>)) {})
     (shlv_row 7 ''ACME'')
   \<and> candidate (step_1_query
       (calculate_age_and_los example_lib (no_criteria \<lparr> hospital_code := ''SHLV'' \<rparr>)) {})
     (shlv_row 7 ''UMBRELLA'')
   \<and> map_option (map result_id) (outcome (run_events example_lib duplicate_id_client
         (alone 1 (no_criteria \<lparr> hospital_code := ''SHLV'' \<rparr>) 2) idle_process) 1)
       = Some [7, 7]
   \<and> honours_queries (table_client shlv_table)
   \<and> map_option (map result_id) (outcome (run_events example_lib (table_client shlv_table)
        [Request 1 (no_criteria \<lparr> hospital_code := ''SHLV'' \<rparr>) 5,
         Request 2 (no_criteria \<lparr> hospital_code := ''SHLV'' \<rparr>) 5,
         Answer 1, Answer 2] idle_process) 2)
       = Some [1, 2, 3, 1, 2]"
proof (intro conjI)
  show "candidate (step_1_query
       (calculate_age_and_los example_lib (no_criteria \<lparr> hospital_code := ''SHLV'' \<rparr>)) {})
     (shlv_row 7 ''ACME'')"
    by (rule duplicate_rows_candidates)
  show "candidate (step_1_query
       (calculate_age_and_los example_lib (no_criteria \<lparr> hospital_code := ''SHLV'' \<rparr>)) {})
     (shlv_row 7 ''UMBRELLA'')"
    by (rule duplicate_rows_candidates)
  show "map_option (map result_id) (outcome (run_events example_lib duplicate_id_client
         (alone 1 (no_criteria \<lparr> hospital_code := ''SHLV'' \<rparr>) 2) idle_process) 1)
       = Some [7, 7]"
    by (simp add: alone_outcome duplicate_rows_outcome)
  show "honours_queries (table_client shlv_table)"
    by (rule table_client_honours) (simp add: shlv_table_def shlv_row_def)
  show "map_option (map result_id) (outcome (run_events example_lib (table_client shlv_table)
        [Request 1 (no_criteria \<lparr> hospital_code := ''SHLV'' \<rparr>) 5,
         Request 2 (no_criteria \<lparr> hospital_code := ''SHLV'' \<rparr>) 5,
         Answer 1, Answer 2] idle_process) 2)
       = Some [1, 2, 3, 1, 2]"
    by (simp add: shlv_rows_answer_1 run_events_def
        search_similar_admissions_def reset_service loop_from_def resume_search_def
        idle_process_def step_queries_def outcome_def final_results_def
        slice_to_def step_number_defs result_id_def shlv_row_def blank_admission_def Let_def)
qed

text \<open>
  Claim C8, as the code has it. A query on which the store fails yields no rows, and the
  search that was waiting for it leaves the service as it is and goes on with the loop
  over its remaining steps, whatever else happens in the process. When nothing else
  happens in the process between the request and its answers, and the store fails on the
  query of step 6, answers the query of step 7 with three rows and has nothing for any
  other query, a search for at least three results returns exactly those three rows,
  each with the literal of step 7, and it announced both step 6 and step 7.
\<close>

theorem stage_failure_contained:
  "(client q = None \<longrightarrow> execute_query client q = [])
   \<and> (client q = None \<longrightarrow>
        resume_search client q co self
          = (self, loop_from (co_processed_data co) (co_max_results co) (co_later_steps co)
                     (co_executed co) self))
   \<and> ((\<forall>q. q_result_step q = ''STEP_6'' \<longrightarrow> client q = None)
        \<and> (\<forall>q. q_result_step q \<noteq> ''STEP_7'' \<longrightarrow> client q = None \<or> client q = Some [])
        \<and> client (step_7_query (calculate_age_and_los lib input_data) {}) = Some [a, b, c]
        \<and> 3 \<le> max_results \<longrightarrow>
      outcome (run_events lib client (alone n input_data max_results) p) n
        = Some [\<lparr> r_row = a, r_result_step = ''STEP_7'' \<rparr>,
                \<lparr> r_row = b, r_result_step = ''STEP_7'' \<rparr>,
                \<lparr> r_row = c, r_result_step = ''STEP_7'' \<rparr>]
      \<and> 6 \<in> set (executed_by (run_events lib client (alone n input_data max_results) p) n)
      \<and> 7 \<in> set (executed_by (run_events lib client (alone n input_data max_results) p) n))"
proof (intro conjI impI)
  assume "client q = None"
  then show "execute_query client q = []" by (simp add: execute_query_def)
next
  assume "client q = None"
  then show "resume_search client q co self
          = (self, loop_from (co_processed_data co) (co_max_results co) (co_later_steps co)
                     (co_executed co) self)"
    by (simp add: resume_search_def execute_query_def)
next
  assume a: "(\<forall>q. q_result_step q = ''STEP_6'' \<longrightarrow> client q = None)
        \<and> (\<forall>q. q_result_step q \<noteq> ''STEP_7'' \<longrightarrow> client q = None \<or> client q = Some [])
        \<and> client (step_7_query (calculate_age_and_los lib input_data) {}) = Some [a, b, c]
        \<and> 3 \<le> max_results"
  note scenario = uninterrupted_failure_contained [THEN conjunct2, THEN conjunct2, THEN conjunct2,
      rule_format, OF a]
  from scenario show "outcome (run_events lib client (alone n input_data max_results) p) n
        = Some [\<lparr> r_row = a, r_result_step = ''STEP_7'' \<rparr>,
                \<lparr> r_row = b, r_result_step = ''STEP_7'' \<rparr>,
                \<lparr> r_row = c, r_result_step = ''STEP_7'' \<rparr>]"
    by (simp add: alone_outcome)
  from scenario
  show "6 \<in> set (executed_by (run_events lib client (alone n input_data max_results) p) n)"
    and "7 \<in> set (executed_by (run_events lib client (alone n input_data max_results) p) n)"
    by (simp_all add: alone_executed)
qed

theorem stage_failure_contained_witness:
  "outcome (run_events example_lib step_6_failing_client
      (alone 1 (no_criteria \<lparr> hospital_code := ''SHLV'' \<rparr>) 3) idle_process) 1
     = Some [\<lparr> r_row = shlv_row 1 ''ACME'', r_result_step = ''STEP_7'' \<rparr>,
             \<lparr> r_row = shlv_row 2 ''ACME'', r_result_step = ''STEP_7'' \<rparr>,
             \<lparr> r_row = shlv_row 3 ''UMBRELLA'', r_result_step = ''STEP_7'' \<rparr>]
   \<and> 6 \<in> set (executed_by (run_events example_lib step_6_failing_client
         (alone 1 (no_criteria \<lparr> hospital_code := ''SHLV'' \<rparr>) 3) idle_process) 1)
   \<and> 7 \<in> set (executed_by (run_events example_lib step_6_failing_client
         (alone 1 (no_criteria \<lparr> hospital_code := ''SHLV'' \<rparr>) 3) idle_process) 1)
   \<and> execute_query step_6_failing_client
         (step_6_query (calculate_age_and_los example_lib
            (no_criteria \<lparr> hospital_code := ''SHLV'' \<rparr>)) {}) = []"
proof -
  let ?d = "calculate_age_and_los example_lib (no_criteria \<lparr> hospital_code := ''SHLV'' \<rparr>)"
  have h: "(\<forall>q. q_result_step q = ''STEP_6'' \<longrightarrow> step_6_failing_client q = None)
        \<and> (\<forall>q. q_result_step q \<noteq> ''STEP_7'' \<longrightarrow>
              step_6_failing_client q = None \<or> step_6_failing_client q = Some [])
        \<and> step_6_failing_client (step_7_query ?d {})
            = Some [shlv_row 1 ''ACME'', shlv_row 2 ''ACME'', shlv_row 3 ''UMBRELLA'']
        \<and> (3::int) \<le> 3"
    by (simp add: step_6_failing_client_def step_7_query_def)
  have n: "step_6_failing_client (step_6_query ?d {}) = None"
    by (simp add: step_6_failing_client_def step_6_query_def)
  from stage_failure_contained [where n = 1 and p = idle_process,
      THEN conjunct2, THEN conjunct2, rule_format, OF h]
    stage_failure_contained [where client = step_6_failing_client
      and q = "step_6_query ?d {}", THEN conjunct1, rule_format, OF n]
  show ?thesis by blast
qed

text \<open>
  The scenario of the claim fails for a search that is interrupted. With the same store
  and a search for five results, step 6 fails and step 7 brings its three rows; the
  search is waiting for the answer to its query of step 8 when a second request arrives
  and resets the list of results. The steps 8 to 17 return nothing, and the first search
  returns the empty list.
\<close>

theorem interrupted_search_loses_rows_counterexample:
  "step_6_failing_client (step_6_query (calculate_age_and_los example_lib
      (no_criteria \<lparr> hospital_code := ''SHLV'' \<rparr>)) {}) = None
   \<and> execute_query step_6_failing_client (step_7_query (calculate_age_and_los example_lib
        (no_criteria \<lparr> hospital_code := ''SHLV'' \<rparr>)) {})
      = [\<lparr> r_row = shlv_row 1 ''ACME'', r_result_step = ''STEP_7'' \<rparr>,
         \<lparr> r_row = shlv_row 2 ''ACME'', r_result_step = ''STEP_7'' \<rparr>,
         \<lparr> r_row = shlv_row 3 ''UMBRELLA'', r_result_step = ''STEP_7'' \<rparr>]
   \<and> results (singleton (run_events example_lib step_6_failing_client
        [Request 1 (no_criteria \<lparr> hospital_code := ''SHLV'' \<rparr>) 5,
         Answer 1, Answer 1, Answer 1, Answer 1, Answer 1, Answer 1, Answer 1] idle_process))
      = [\<lparr> r_row = shlv_row 1 ''ACME'', r_result_step = ''STEP_7'' \<rparr>,
         \<lparr> r_row = shlv_row 2 ''ACME'', r_result_step = ''STEP_7'' \<rparr>,
         \<lparr> r_row = shlv_row 3 ''UMBRELLA'', r_result_step = ''STEP_7'' \<rparr>]
   \<and> outcome (run_events example_lib step_6_failing_client
        [Request 1 (no_criteria \<lparr> hospital_code := ''SHLV'' \<rparr>) 5,
         Answer 1, Answer 1, Answer 1, Answer 1, Answer 1, Answer 1, Answer 1,
         Request 2 (no_criteria \<lparr> hospital_code := ''SHLV'' \<rparr>) 5,
         Answer 1, Answer 1, Answer 1, Answer 1, Answer 1, Answer 1, Answer 1, Answer 1,
         Answer 1, Answer 1] idle_process) 1 = Some []"
  by (simp add: result_steps step_6_failing_client_def execute_query_def run_events_def
        search_similar_admissions_def reset_service loop_from_def resume_search_def
        idle_process_def step_queries_def outcome_def final_results_def slice_to_def Let_def)

end
